theory Spec2Isabelle
  imports Main "HOL-Library.AList" "HOL-Library.Sublist"
begin

unbundle bit_operations_syntax

section \<open>Rendering numbers and addresses\<close>

text \<open>
  Python's \<^verbatim>\<open>str\<close> on a non-negative \<^verbatim>\<open>int\<close> is its decimal numeral without
  leading zeros; on a negative one it is a minus sign followed by the numeral of the
  absolute value.
\<close>

definition digit :: "nat \<Rightarrow> char" where
  "digit d = ''0123456789'' ! d"

fun str_nat :: "nat \<Rightarrow> string" where
  "str_nat n = (if n < 10 then [digit n] else str_nat (n div 10) @ [digit (n mod 10)])"

declare str_nat.simps [simp del]

definition str_int :: "int \<Rightarrow> string" where
  "str_int i = (if i < 0 then ''-'' @ str_nat (nat (- i)) else str_nat (nat i))"

text \<open>
  An \<^verbatim>\<open>ipaddress.IPv4Address\<close> wraps an integer below \<open>2 ^ 32\<close>; its \<^verbatim>\<open>str\<close> is
  the dotted quad of its four bytes, most significant first, and \<^verbatim>\<open><\<close> compares the
  integers.
\<close>

type_synonym ipv4address = nat

definition str_ip :: "ipv4address \<Rightarrow> string" where
  "str_ip a =
     str_nat (a div 2 ^ 24 mod 256) @ ''.'' @ str_nat (a div 2 ^ 16 mod 256) @ ''.'' @
     str_nat (a div 2 ^ 8 mod 256) @ ''.'' @ str_nat (a mod 256)"

text \<open>
  An \<^verbatim>\<open>ipaddress.IPv4Network\<close> is a network address and a prefix length. Its
  broadcast address is the network address with all host bits set, and
  \<^verbatim>\<open>hosts()\<close> yields, in ascending order, the addresses strictly between the two;
  for a /31 it yields both addresses, for a /32 the single one.
\<close>

record ipv4network =
  network_address :: ipv4address
  prefixlen :: nat

definition hostmask :: "ipv4network \<Rightarrow> nat" where
  "hostmask net = 2 ^ (32 - prefixlen net) - 1"

definition broadcast_address :: "ipv4network \<Rightarrow> ipv4address" where
  "broadcast_address net = network_address net OR hostmask net"

definition hosts :: "ipv4network \<Rightarrow> ipv4address list" where
  "hosts net =
     (if prefixlen net = 31 then [network_address net ..< broadcast_address net + 1]
      else if prefixlen net = 32 then [network_address net]
      else [network_address net + 1 ..< broadcast_address net])"

section \<open>Configuration\<close>

text \<open>
  The attributes of \<^verbatim>\<open>Config\<close> that the manager reads. The network and the start
  address are kept in parsed form (\<^verbatim>\<open>IPv4Network(VPN_NETWORK)\<close>,
  \<^verbatim>\<open>IPv4Address(VPN_NETWORK_START)\<close>).
\<close>

record config =
  SERVER_PUBLIC_KEY :: string
  SERVER_IP :: string
  SERVER_PORT :: int
  VPN_NETWORK :: ipv4network
  VPN_NETWORK_START :: ipv4address
  JC :: int
  JMIN :: int
  JMAX :: int
  S1 :: int
  S2 :: int
  S3 :: int
  S4 :: int
  H1 :: string
  H2 :: string
  H3 :: string
  H4 :: string
  I1 :: string
  I2 :: string
  I3 :: string
  I4 :: string
  I5 :: string
  INTERFACE_NAME :: string

section \<open>The IP pool scan\<close>

text \<open>The exceptions the manager raises or lets through, each with its message.\<close>

datatype error =
  ValueError string
  | RuntimeError string
  | CalledProcessError string
  | OSError string

definition str_exc :: "error \<Rightarrow> string" where
  "str_exc e =
     (case e of ValueError m \<Rightarrow> m | RuntimeError m \<Rightarrow> m
      | CalledProcessError m \<Rightarrow> m | OSError m \<Rightarrow> m)"

text \<open>
  The loop of \<^verbatim>\<open>_get_next_ip\<close> over \<^verbatim>\<open>self.network.hosts()\<close>: an address below
  the start is skipped, the first one whose string is not in \<^verbatim>\<open>used_ips\<close> is
  returned as a string.
\<close>

fun scan_hosts :: "ipv4address \<Rightarrow> string set \<Rightarrow> ipv4address list \<Rightarrow> string option" where
  "scan_hosts start_ip used [] = None"
| "scan_hosts start_ip used (ip # rest) =
     (if ip < start_ip then scan_hosts start_ip used rest
      else if str_ip ip \<notin> used then Some (str_ip ip)
      else scan_hosts start_ip used rest)"

definition get_next_ip :: "config \<Rightarrow> string set \<Rightarrow> error + string" where
  "get_next_ip cfg used =
     (case scan_hosts (VPN_NETWORK_START cfg) used (hosts (VPN_NETWORK cfg)) of
        Some ip_str \<Rightarrow> Inr ip_str
      | None \<Rightarrow> Inl (RuntimeError ''No available IPs in the pool''))"

section \<open>Users, the object store and the environment\<close>

text \<open>
  A user is a Python dict with the keys \<^verbatim>\<open>id\<close>, \<^verbatim>\<open>name\<close>, \<^verbatim>\<open>private_key\<close>,
  \<^verbatim>\<open>public_key\<close>, \<^verbatim>\<open>ip\<close>, \<^verbatim>\<open>allowed_ips\<close> and, once it has been attached,
  \<^verbatim>\<open>client_config\<close> (\<open>None\<close> while the key is absent). The field \<open>uid\<close> is the
  key \<^verbatim>\<open>id\<close>.
\<close>

record user =
  uid :: string
  name :: string
  private_key :: string
  public_key :: string
  ip :: string
  allowed_ips :: string
  client_config :: "string option"

text \<open>
  Dicts are mutable objects and \<^verbatim>\<open>self.users\<close> holds references to them, so the
  state has an object store: a reference is an index into \<open>heap\<close>, allocation
  appends. \<open>users\<close> is \<^verbatim>\<open>self.users\<close> in insertion order, \<open>used_ips\<close> the set
  \<^verbatim>\<open>self.used_ips\<close>. Outside the process there are the JSON document at
  \<^verbatim>\<open>users_file\<close> (\<open>None\<close> while the file does not exist) and the external
  commands run so far, each as its argument vector.
\<close>

type_synonym ref = nat

record state =
  heap :: "user list"
  users :: "(string \<times> ref) list"
  used_ips :: "string set"
  users_file :: "(string \<times> user) list option"
  calls :: "string list list"

text \<open>
  What the outside world answers during one operation. \<open>genkey\<close> and \<open>pubkey\<close>
  give the stripped output of \<^verbatim>\<open>awg genkey\<close> and of \<^verbatim>\<open>awg pubkey\<close> on the given
  input, or the message of the \<^verbatim>\<open>CalledProcessError\<close> that \<^verbatim>\<open>check_output\<close>
  raises; \<open>awg\<close> gives the completed process of \<^verbatim>\<open>awg\<close> with the given arguments;
  \<open>write_error\<close> is the message of the \<^verbatim>\<open>OSError\<close> raised when the users file
  cannot be opened for writing, \<open>None\<close> when the write goes through.
\<close>

record proc =
  returncode :: int
  stdout :: string
  stderr :: string

record env =
  genkey :: "string + string"
  pubkey :: "string \<Rightarrow> string + string"
  awg :: "string list \<Rightarrow> proc"
  write_error :: "string option"

text \<open>The user store as callers see it: each id with the dict it refers to.\<close>

definition store :: "state \<Rightarrow> (string \<times> user) list" where
  "store s = map (\<lambda>(k, r). (k, heap s ! r)) (users s)"

text \<open>
  \<^verbatim>\<open>__init__\<close>: \<^verbatim>\<open>_load_users\<close> builds one fresh dict per entry of the document
  (none when the file does not exist), and \<^verbatim>\<open>used_ips\<close> collects their
  \<^verbatim>\<open>ip\<close> values.
\<close>

definition load_users :: "(string \<times> user) list option \<Rightarrow> (string \<times> user) list" where
  "load_users file = (case file of None \<Rightarrow> [] | Some doc \<Rightarrow> doc)"

definition init :: "(string \<times> user) list option \<Rightarrow> string list list \<Rightarrow> state" where
  "init file cs =
     (let doc = load_users file in
      \<lparr>heap = map snd doc,
       users = zip (map fst doc) [0..<length doc],
       used_ips = set (map (\<lambda>u. ip u) (map snd doc)),
       users_file = file,
       calls = cs\<rparr>)"

section \<open>External commands and persistence\<close>

text \<open>
  \<^verbatim>\<open>_save_users\<close> rewrites the whole document from \<^verbatim>\<open>self.users\<close>, reading every
  dict through its reference. \<^verbatim>\<open>_generate_keypair\<close> runs \<^verbatim>\<open>awg genkey\<close>, then
  \<^verbatim>\<open>awg pubkey\<close> on the private key; \<^verbatim>\<open>check_output\<close> raises on a non-zero exit.
  \<^verbatim>\<open>_run_awg_command\<close> returns the standard output on exit status 0 and raises
  \<^verbatim>\<open>RuntimeError\<close> with the error output otherwise. Every command that is run is
  appended to \<open>calls\<close>. A command that cannot be started at all is outside the model.
\<close>

definition save_users :: "env \<Rightarrow> state \<Rightarrow> (error + unit) \<times> state" where
  "save_users e s =
     (case write_error e of
        Some m \<Rightarrow> (Inl (OSError m), s)
      | None \<Rightarrow> (Inr (), s\<lparr>users_file := Some (store s)\<rparr>))"

definition generate_keypair :: "env \<Rightarrow> state \<Rightarrow> (error + string \<times> string) \<times> state" where
  "generate_keypair e s =
     (let s1 = s\<lparr>calls := calls s @ [[''awg'', ''genkey'']]\<rparr> in
      case genkey e of
        Inl m \<Rightarrow> (Inl (CalledProcessError m), s1)
      | Inr priv_key \<Rightarrow>
          (let s2 = s1\<lparr>calls := calls s1 @ [[''awg'', ''pubkey'']]\<rparr> in
           case pubkey e priv_key of
             Inl m \<Rightarrow> (Inl (CalledProcessError m), s2)
           | Inr pub_key \<Rightarrow> (Inr (priv_key, pub_key), s2)))"

definition run_awg_command :: "env \<Rightarrow> string list \<Rightarrow> state \<Rightarrow> (error + string) \<times> state" where
  "run_awg_command e args s =
     (let result = awg e args;
          s1 = s\<lparr>calls := calls s @ [''awg'' # args]\<rparr>
      in if returncode result = 0 then (Inr (stdout result), s1)
         else (Inl (RuntimeError (''awg command failed: '' @ stderr result)), s1))"

definition add_peer :: "config \<Rightarrow> env \<Rightarrow> string \<Rightarrow> string \<Rightarrow> state \<Rightarrow> (error + unit) \<times> state" where
  "add_peer cfg e pub_key allowed_ip s =
     (case run_awg_command e
             [''set'', INTERFACE_NAME cfg, ''peer'', pub_key,
              ''allowed-ips'', allowed_ip @ ''/32''] s of
        (Inl err, s1) \<Rightarrow> (Inl err, s1)
      | (Inr out, s1) \<Rightarrow> (Inr (), s1))"

definition remove_peer :: "config \<Rightarrow> env \<Rightarrow> string \<Rightarrow> state \<Rightarrow> (error + unit) \<times> state" where
  "remove_peer cfg e pub_key s =
     (case run_awg_command e
             [''set'', INTERFACE_NAME cfg, ''peer'', pub_key, ''remove''] s of
        (Inl err, s1) \<Rightarrow> (Inl err, s1)
      | (Inr out, s1) \<Rightarrow> (Inr (), s1))"

section \<open>Rendering the client configuration\<close>

text \<open>
  \<^verbatim>\<open>_generate_client_config\<close>. Strings are byte lists, so the four CJK characters
  of the first comment line appear as their UTF-8 bytes. The template is followed by
  nine conditional appends, each guarded by the truth value of a string (non-empty),
  and by the peer section.
\<close>

definition cjk_comment :: string where
  "cjk_comment =
     [CHR 0xE6, CHR 0xB7, CHR 0xB7, CHR 0xE6, CHR 0xB7, CHR 0x86,
      CHR 0xE5, CHR 0x8F, CHR 0x82, CHR 0xE6, CHR 0x95, CHR 0xB0]"

definition generate_client_config :: "config \<Rightarrow> user \<Rightarrow> string" where
  "generate_client_config cfg user =
     (let config =
            ''[Interface]\<newline>PrivateKey = '' @ private_key user @
            ''\<newline>Address = '' @ ip user @ ''/32\<newline>DNS = 1.1.1.1\<newline>\<newline># '' @
            cjk_comment @ '' (Obfuscation parameters)\<newline>'' @
            ''# obfJunkMinCnt -> Jc, obfJunkMin -> Jmin, obfJunkVar -> Jmax-Jmin\<newline>'' @
            ''# obfCtlPadLen -> S1, obfTrPadLen -> S4\<newline>'' @
            ''Jc = '' @ str_int (JC cfg) @
            ''\<newline>Jmin = '' @ str_int (JMIN cfg) @
            ''\<newline>Jmax = '' @ str_int (JMAX cfg) @
            ''\<newline>S1 = '' @ str_int (S1 cfg) @
            ''\<newline>S2 = '' @ str_int (S2 cfg) @
            ''\<newline>S3 = '' @ str_int (S3 cfg) @
            ''\<newline>S4 = '' @ str_int (S4 cfg);
          config = (if H1 cfg \<noteq> [] then config @ ''\<newline>H1 = '' @ H1 cfg else config);
          config = (if H2 cfg \<noteq> [] then config @ ''\<newline>H2 = '' @ H2 cfg else config);
          config = (if H3 cfg \<noteq> [] then config @ ''\<newline>H3 = '' @ H3 cfg else config);
          config = (if H4 cfg \<noteq> [] then config @ ''\<newline>H4 = '' @ H4 cfg else config);
          config = (if I1 cfg \<noteq> [] then config @ ''\<newline>I1 = '' @ I1 cfg else config);
          config = (if I2 cfg \<noteq> [] then config @ ''\<newline>I2 = '' @ I2 cfg else config);
          config = (if I3 cfg \<noteq> [] then config @ ''\<newline>I3 = '' @ I3 cfg else config);
          config = (if I4 cfg \<noteq> [] then config @ ''\<newline>I4 = '' @ I4 cfg else config);
          config = (if I5 cfg \<noteq> [] then config @ ''\<newline>I5 = '' @ I5 cfg else config)
      in config @
         ''\<newline>\<newline>[Peer]\<newline>PublicKey = '' @ SERVER_PUBLIC_KEY cfg @
         ''\<newline>Endpoint = '' @ SERVER_IP cfg @ '':'' @ str_int (SERVER_PORT cfg) @
         ''\<newline>AllowedIPs = 0.0.0.0/0\<newline>PersistentKeepalive = 25\<newline>'')"

section \<open>The lifecycle operations\<close>

text \<open>
  \<^verbatim>\<open>create_user\<close>. The dict \<^verbatim>\<open>user\<close> is allocated once; \<^verbatim>\<open>self.users[user_id] = user\<close>
  stores the reference, and the later \<^verbatim>\<open>user['client_config'] = ...\<close> writes
  through that same reference. The result is the reference.
\<close>

definition create_user ::
    "config \<Rightarrow> env \<Rightarrow> string \<Rightarrow> string option \<Rightarrow> state \<Rightarrow> (error + ref) \<times> state" where
  "create_user cfg e user_id name_arg s =
     (if user_id \<in> fst ` set (users s)
      then (Inl (ValueError (''User '' @ user_id @ '' already exists'')), s)
      else
        case generate_keypair e s of
          (Inl err, s1) \<Rightarrow> (Inl err, s1)
        | (Inr (priv_key, pub_key), s1) \<Rightarrow>
            (case get_next_ip cfg (used_ips s1) of
               Inl err \<Rightarrow> (Inl err, s1)
             | Inr ip_address \<Rightarrow>
                 (let r = length (heap s1);
                      s2 = s1\<lparr>heap := heap s1 @
                             [\<lparr>uid = user_id,
                               name = (case name_arg of
                                         None \<Rightarrow> user_id
                                       | Some n \<Rightarrow> if n \<noteq> [] then n else user_id),
                               private_key = priv_key,
                               public_key = pub_key,
                               ip = ip_address,
                               allowed_ips = ip_address @ ''/32'',
                               client_config = None\<rparr>]\<rparr>
                  in case add_peer cfg e pub_key ip_address s2 of
                       (Inl err, s3) \<Rightarrow> (Inl err, s3)
                     | (Inr u, s3) \<Rightarrow>
                         (let s4 = s3\<lparr>users := AList.update user_id r (users s3)\<rparr>;
                              s5 = s4\<lparr>used_ips := insert ip_address (used_ips s4)\<rparr>
                          in case save_users e s5 of
                               (Inl err, s6) \<Rightarrow> (Inl err, s6)
                             | (Inr u, s6) \<Rightarrow>
                                 (let cc = generate_client_config cfg (heap s6 ! r);
                                      s7 = s6\<lparr>heap := (heap s6)
                                             [r := (heap s6 ! r)\<lparr>client_config := Some cc\<rparr>]\<rparr>
                                  in (Inr r, s7))))))"

text \<open>
  \<^verbatim>\<open>delete_user\<close>: the peer is removed first; only then are the address discarded,
  the entry deleted and the document rewritten.
\<close>

definition delete_user :: "config \<Rightarrow> env \<Rightarrow> string \<Rightarrow> state \<Rightarrow> (error + bool) \<times> state" where
  "delete_user cfg e user_id s =
     (case map_of (users s) user_id of
        None \<Rightarrow> (Inl (ValueError (''User '' @ user_id @ '' not found'')), s)
      | Some r \<Rightarrow>
          (case remove_peer cfg e (public_key (heap s ! r)) s of
             (Inl err, s1) \<Rightarrow> (Inl err, s1)
           | (Inr u, s1) \<Rightarrow>
               (let s2 = s1\<lparr>used_ips := used_ips s1 - {ip (heap s1 ! r)}\<rparr>;
                    s3 = s2\<lparr>users := AList.delete user_id (users s2)\<rparr>
                in case save_users e s3 of
                     (Inl err, s4) \<Rightarrow> (Inl err, s4)
                   | (Inr u, s4) \<Rightarrow> (Inr True, s4))))"

text \<open>
  \<^verbatim>\<open>get_user\<close>: \<^verbatim>\<open>user.copy()\<close> allocates a new dict with the same entries, and the
  client configuration is attached to the copy. A stored user dict is never empty, so
  \<^verbatim>\<open>if user\<close> only tests for presence.
\<close>

definition get_user :: "config \<Rightarrow> string \<Rightarrow> state \<Rightarrow> ref option \<times> state" where
  "get_user cfg user_id s =
     (case map_of (users s) user_id of
        None \<Rightarrow> (None, s)
      | Some r \<Rightarrow>
          (let c = length (heap s);
               s1 = s\<lparr>heap := heap s @ [heap s ! r]\<rparr>;
               cc = generate_client_config cfg (heap s1 ! c);
               s2 = s1\<lparr>heap := (heap s1)[c := (heap s1 ! c)\<lparr>client_config := Some cc\<rparr>]\<rparr>
           in (Some c, s2)))"

text \<open>\<^verbatim>\<open>list_users\<close> builds one four-key dict per entry, in the order of the store.\<close>

record user_summary =
  summary_id :: string
  summary_name :: string
  summary_ip :: string
  summary_public_key :: string

definition list_users :: "state \<Rightarrow> user_summary list \<times> state" where
  "list_users s =
     (map (\<lambda>(user_id, r).
             \<lparr>summary_id = user_id,
              summary_name = name (heap s ! r),
              summary_ip = ip (heap s ! r),
              summary_public_key = public_key (heap s ! r)\<rparr>) (users s), s)"

text \<open>
  \<^verbatim>\<open>get_server_status\<close>: the two shapes of the returned dict, \<^verbatim>\<open>'status': 'running'\<close>
  and \<^verbatim>\<open>'status': 'error'\<close>. \<^verbatim>\<open>len\<close> of the used set is its cardinality.
\<close>

datatype server_status =
  StatusRunning (interface: string) (total_users: nat) (available_ips: int) (details: string)
  | StatusError (interface: string) (error_text: string)

definition get_server_status :: "config \<Rightarrow> env \<Rightarrow> state \<Rightarrow> server_status \<times> state" where
  "get_server_status cfg e s =
     (case run_awg_command e [''show'', INTERFACE_NAME cfg] s of
        (Inr output, s1) \<Rightarrow>
          (StatusRunning (INTERFACE_NAME cfg) (length (users s1))
             (int (length (hosts (VPN_NETWORK cfg))) - int (card (used_ips s1))) output, s1)
      | (Inl err, s1) \<Rightarrow> (StatusError (INTERFACE_NAME cfg) (str_exc err), s1))"

text \<open>The names the specification gives to the failures.\<close>

definition DuplicateUser :: "string \<Rightarrow> error" where
  "DuplicateUser user_id = ValueError (''User '' @ user_id @ '' already exists'')"

definition UserNotFound :: "string \<Rightarrow> error" where
  "UserNotFound user_id = ValueError (''User '' @ user_id @ '' not found'')"

definition PoolExhausted :: error where
  "PoolExhausted = RuntimeError ''No available IPs in the pool''"

definition PeerCommandFailed :: "string \<Rightarrow> error" where
  "PeerCommandFailed detail = RuntimeError (''awg command failed: '' @ detail)"

section \<open>Well-formed states and reachable states\<close>

text \<open>
  Two facts that Python guarantees for every state of the manager: a reference held by
  \<^verbatim>\<open>self.users\<close> points to an allocated dict, and a dict has each key once.
\<close>

definition refs_valid :: "state \<Rightarrow> bool" where
  "refs_valid s \<longleftrightarrow> (\<forall>r \<in> snd ` set (users s). r < length (heap s))"

definition keys_distinct :: "state \<Rightarrow> bool" where
  "keys_distinct s \<longleftrightarrow> distinct (map fst (users s))"

text \<open>The \<^verbatim>\<open>ip\<close> values of the stored users, in store order.\<close>

definition store_ips :: "state \<Rightarrow> string list" where
  "store_ips s = map (\<lambda>(k, u). ip u) (store s)"

text \<open>
  The states the service can be in between two operations: it starts with no users
  file, runs any of the five operations under any answers of the outside world, and may
  be restarted, which runs \<^verbatim>\<open>__init__\<close> on the document it last wrote.
\<close>

inductive reachable :: "config \<Rightarrow> state \<Rightarrow> bool" for cfg :: config where
  start: "reachable cfg (init None cs)"
| create: "reachable cfg s \<Longrightarrow> reachable cfg (snd (create_user cfg e user_id name_arg s))"
| delete: "reachable cfg s \<Longrightarrow> reachable cfg (snd (delete_user cfg e user_id s))"
| get: "reachable cfg s \<Longrightarrow> reachable cfg (snd (get_user cfg user_id s))"
| list: "reachable cfg s \<Longrightarrow> reachable cfg (snd (list_users s))"
| status: "reachable cfg s \<Longrightarrow> reachable cfg (snd (get_server_status cfg e s))"
| restart: "reachable cfg s \<Longrightarrow> reachable cfg (init (users_file s) (calls s))"

text \<open>The invariant carried through the operations, for the store and for the document.\<close>

definition doc_ok :: "(string \<times> user) list option \<Rightarrow> bool" where
  "doc_ok file =
     (case file of
        None \<Rightarrow> True
      | Some doc \<Rightarrow> distinct (map fst doc) \<and> distinct (map (\<lambda>(k, u). ip u) doc))"

definition state_inv :: "state \<Rightarrow> bool" where
  "state_inv s \<longleftrightarrow>
     refs_valid s \<and> keys_distinct s \<and> distinct (store_ips s) \<and>
     set (store_ips s) = used_ips s \<and> doc_ok (users_file s)"

section \<open>A concrete configuration and environment\<close>

text \<open>
  The defaults of \<^verbatim>\<open>config.py\<close>: network \<^verbatim>\<open>10.8.0.0/24\<close>, start \<^verbatim>\<open>10.8.0.2\<close>, no
  optional field set. \<open>example_env\<close> is a world in which every command exits with
  status 0 and the file can be written; in \<open>failing_env\<close> every \<^verbatim>\<open>awg\<close> call made
  through \<^verbatim>\<open>_run_awg_command\<close> exits with status 1.
\<close>

definition example_config :: config where
  "example_config =
     \<lparr>SERVER_PUBLIC_KEY = [], SERVER_IP = ''0.0.0.0'', SERVER_PORT = 51820,
      VPN_NETWORK = \<lparr>network_address = 168296448, prefixlen = 24\<rparr>,
      VPN_NETWORK_START = 168296450,
      JC = 6, JMIN = 50, JMAX = 1000, S1 = 0, S2 = 0, S3 = 0, S4 = 0,
      H1 = [], H2 = [], H3 = [], H4 = [],
      I1 = [], I2 = [], I3 = [], I4 = [], I5 = [],
      INTERFACE_NAME = ''awg0''\<rparr>"

definition example_env :: env where
  "example_env =
     \<lparr>genkey = Inr ''cHJpdmF0ZQ'',
      pubkey = (\<lambda>k. Inr (''pub-'' @ k)),
      awg = (\<lambda>args. \<lparr>returncode = 0, stdout = [], stderr = []\<rparr>),
      write_error = None\<rparr>"

definition failing_env :: env where
  "failing_env =
     \<lparr>genkey = Inr ''cHJpdmF0ZQ'',
      pubkey = (\<lambda>k. Inr (''pub-'' @ k)),
      awg = (\<lambda>args. \<lparr>returncode = 1, stdout = [], stderr = ''Unable to modify interface''\<rparr>),
      write_error = None\<rparr>"

text \<open>The state after \<^verbatim>\<open>create_user('a')\<close> on a fresh service.\<close>

definition state_a :: state where
  "state_a = snd (create_user example_config example_env ''a'' None (init None []))"

text \<open>
  The states of the scenarios: users \<^verbatim>\<open>b\<close> and \<^verbatim>\<open>c\<close> created after \<^verbatim>\<open>a\<close>; then \<^verbatim>\<open>a\<close>
  deleted and \<^verbatim>\<open>d\<close> created.
\<close>

definition state_ab :: state where
  "state_ab = snd (create_user example_config example_env ''b'' None state_a)"

definition state_abc :: state where
  "state_abc = snd (create_user example_config example_env ''c'' None state_ab)"

definition state_bc :: state where
  "state_bc = snd (delete_user example_config example_env ''a'' state_abc)"

definition state_bcd :: state where
  "state_bcd = snd (create_user example_config example_env ''d'' None state_bc)"

text \<open>
  A small pool: \<^verbatim>\<open>10.8.0.0/30\<close> has the hosts \<^verbatim>\<open>10.8.0.1\<close> and \<^verbatim>\<open>10.8.0.2\<close>, and with the
  start at \<^verbatim>\<open>10.8.0.2\<close> one user fills it.
\<close>

definition small_config :: config where
  "small_config = example_config\<lparr>VPN_NETWORK := \<lparr>network_address = 168296448, prefixlen = 30\<rparr>\<rparr>"

definition state_full :: state where
  "state_full = snd (create_user small_config example_env ''a'' None (init None []))"

section \<open>The client configuration as the specification describes it\<close>

text \<open>
  The specification's reading of the renderer: the text is a sequence of lines joined
  by line feeds (\<^verbatim>\<open>'\n'.join\<close>), made of the interface section with the comment
  block, the seven obfuscation parameters, one line per optional field whose value is
  not empty, in the order H1 to H4 and then I1 to I5, and the peer section, which ends
  with an empty last line. \<open>split_lines\<close> is \<^verbatim>\<open>text.split('\n')\<close>.
\<close>

fun join_lines :: "string list \<Rightarrow> string" where
  "join_lines [] = []"
| "join_lines [l] = l"
| "join_lines (l # ls) = l @ CHR ''\<newline>'' # join_lines ls"

fun split_lines :: "string \<Rightarrow> string list" where
  "split_lines [] = [[]]"
| "split_lines (c # cs) =
     (if c = CHR ''\<newline>'' then [] # split_lines cs
      else (case split_lines cs of [] \<Rightarrow> [[c]] | l # ls \<Rightarrow> (c # l) # ls))"

definition interface_lines :: "config \<Rightarrow> user \<Rightarrow> string list" where
  "interface_lines cfg user =
     [''[Interface]'',
      ''PrivateKey = '' @ private_key user,
      ''Address = '' @ ip user @ ''/32'',
      ''DNS = 1.1.1.1'',
      [],
      ''# '' @ cjk_comment @ '' (Obfuscation parameters)'',
      ''# obfJunkMinCnt -> Jc, obfJunkMin -> Jmin, obfJunkVar -> Jmax-Jmin'',
      ''# obfCtlPadLen -> S1, obfTrPadLen -> S4'']"

definition obfuscation_lines :: "config \<Rightarrow> string list" where
  "obfuscation_lines cfg =
     [''Jc = '' @ str_int (JC cfg),
      ''Jmin = '' @ str_int (JMIN cfg),
      ''Jmax = '' @ str_int (JMAX cfg),
      ''S1 = '' @ str_int (S1 cfg),
      ''S2 = '' @ str_int (S2 cfg),
      ''S3 = '' @ str_int (S3 cfg),
      ''S4 = '' @ str_int (S4 cfg)]"

definition optional_fields :: "config \<Rightarrow> (string \<times> string) list" where
  "optional_fields cfg =
     [(''H1'', H1 cfg), (''H2'', H2 cfg), (''H3'', H3 cfg), (''H4'', H4 cfg),
      (''I1'', I1 cfg), (''I2'', I2 cfg), (''I3'', I3 cfg), (''I4'', I4 cfg), (''I5'', I5 cfg)]"

definition field_line :: "string \<times> string \<Rightarrow> string" where
  "field_line kv = fst kv @ '' = '' @ snd kv"

definition optional_lines :: "config \<Rightarrow> string list" where
  "optional_lines cfg = map field_line (filter (\<lambda>kv. snd kv \<noteq> []) (optional_fields cfg))"

definition peer_lines :: "config \<Rightarrow> string list" where
  "peer_lines cfg =
     [[],
      ''[Peer]'',
      ''PublicKey = '' @ SERVER_PUBLIC_KEY cfg,
      ''Endpoint = '' @ SERVER_IP cfg @ '':'' @ str_int (SERVER_PORT cfg),
      ''AllowedIPs = 0.0.0.0/0'',
      ''PersistentKeepalive = 25'',
      []]"

definition render_lines :: "config \<Rightarrow> user \<Rightarrow> string list" where
  "render_lines cfg user =
     interface_lines cfg user @ obfuscation_lines cfg @ optional_lines cfg @ peer_lines cfg"

text \<open>
  The values that are copied into the text (the user's private key and address, the
  server's public key and address, the nine optional values) contain no line feed.
\<close>

definition single_line_values :: "config \<Rightarrow> user \<Rightarrow> bool" where
  "single_line_values cfg user \<longleftrightarrow>
     (\<forall>v \<in> set ([private_key user, ip user, SERVER_PUBLIC_KEY cfg, SERVER_IP cfg] @
                  map snd (optional_fields cfg)). CHR ''\<newline>'' \<notin> set v)"

text \<open>The rendering scenario: \<^verbatim>\<open>I3\<close> set to \<^verbatim>\<open>abcd\<close>, nothing else, for the first user.\<close>

definition abcd_config :: config where
  "abcd_config = example_config\<lparr>I3 := ''abcd''\<rparr>"

text \<open>
  The same scenario with two values that hold a line feed, as an environment variable
  may: \<^verbatim>\<open>I5\<close> is \<^verbatim>\<open>x\<close>, line feed, \<^verbatim>\<open>I3 = abcd\<close>, and the server's public key is
  \<^verbatim>\<open>k\<close>, line feed, \<^verbatim>\<open>H1 = 1\<close>. \<^verbatim>\<open>H1\<close> itself is not set.
\<close>

definition multiline_config :: config where
  "multiline_config =
     example_config\<lparr>SERVER_PUBLIC_KEY := ''k\<newline>H1 = 1'', I3 := ''abcd'', I5 := ''x\<newline>I3 = abcd''\<rparr>"

definition example_user :: user where
  "example_user =
     \<lparr>uid = ''a'', name = ''a'', private_key = ''cHJpdmF0ZQ'', public_key = ''pub-cHJpdmF0ZQ'',
      ip = ''10.8.0.2'', allowed_ips = ''10.8.0.2/32'', client_config = None\<rparr>"

section \<open>Effects of the helper operations\<close>

lemma generate_keypair_ok:
  "genkey e = Inr priv \<Longrightarrow> pubkey e priv = Inr pub \<Longrightarrow>
   generate_keypair e s = (Inr (priv, pub), s\<lparr>calls := calls s @ [[''awg'', ''genkey''], [''awg'', ''pubkey'']]\<rparr>)"
  by (simp add: generate_keypair_def Let_def)

subsection \<open>The scan of the pool\<close>

lemma scan_hosts_None:
  "scan_hosts st used xs = None \<longleftrightarrow> (\<forall>h\<in>set xs. st \<le> h \<longrightarrow> str_ip h \<in> used)"
  by (induction xs) auto

lemma scan_hosts_Some:
  "sorted xs \<Longrightarrow> scan_hosts st used xs = Some r \<Longrightarrow>
     \<exists>h\<in>set xs. r = str_ip h \<and> st \<le> h \<and> str_ip h \<notin> used \<and>
        (\<forall>h'\<in>set xs. st \<le> h' \<and> str_ip h' \<notin> used \<longrightarrow> h \<le> h')"
proof (induction xs)
  case Nil
  then show ?case by simp
next
  case (Cons x xs)
  show ?case
  proof (cases "x < st \<or> str_ip x \<in> used")
    case True
    with Cons.prems have "scan_hosts st used xs = Some r" by (auto split: if_splits)
    moreover from Cons.prems have "sorted xs" by simp
    ultimately obtain h where h: "h \<in> set xs" "r = str_ip h" "st \<le> h" "str_ip h \<notin> used"
      "\<forall>h'\<in>set xs. st \<le> h' \<and> str_ip h' \<notin> used \<longrightarrow> h \<le> h'"
      using Cons.IH by blast
    with True show ?thesis by auto
  next
    case False
    with Cons.prems have "r = str_ip x" by (auto split: if_splits)
    with False Cons.prems show ?thesis by auto
  qed
qed

lemma sorted_hosts: "sorted (hosts net)"
  by (simp add: hosts_def del: upt_Suc)

lemma scan_hosts_not_used: "scan_hosts st used xs = Some r \<Longrightarrow> r \<notin> used"
  by (induction xs) (auto split: if_splits)

lemma get_next_ip_not_used: "get_next_ip cfg used = Inr a \<Longrightarrow> a \<notin> used"
  by (auto simp: get_next_ip_def split: option.splits dest: scan_hosts_not_used)


subsection \<open>A successful \<^verbatim>\<open>create_user\<close>\<close>

lemma update_absent: "k \<notin> fst ` set al \<Longrightarrow> AList.update k v al = al @ [(k, v)]"
  by (induction al) auto

lemma add_peer_ok:
  "returncode (awg e [''set'', INTERFACE_NAME cfg, ''peer'', pub, ''allowed-ips'', a @ ''/32'']) = 0 \<Longrightarrow>
   add_peer cfg e pub a s =
     (Inr (), s\<lparr>calls := calls s @ [[''awg'', ''set'', INTERFACE_NAME cfg, ''peer'', pub, ''allowed-ips'', a @ ''/32'']]\<rparr>)"
  by (simp add: add_peer_def run_awg_command_def Let_def)

lemma add_peer_fail:
  "returncode (awg e [''set'', INTERFACE_NAME cfg, ''peer'', pub, ''allowed-ips'', a @ ''/32'']) \<noteq> 0 \<Longrightarrow>
   add_peer cfg e pub a s =
     (Inl (PeerCommandFailed (stderr (awg e [''set'', INTERFACE_NAME cfg, ''peer'', pub, ''allowed-ips'', a @ ''/32'']))),
      s\<lparr>calls := calls s @ [[''awg'', ''set'', INTERFACE_NAME cfg, ''peer'', pub, ''allowed-ips'', a @ ''/32'']]\<rparr>)"
  by (simp add: add_peer_def run_awg_command_def Let_def PeerCommandFailed_def)

lemma create_user_success:
  fixes cfg e user_id name_arg s priv pub a
  defines "u \<equiv> \<lparr>uid = user_id,
                 name = (case name_arg of None \<Rightarrow> user_id | Some n \<Rightarrow> if n \<noteq> [] then n else user_id),
                 private_key = priv, public_key = pub, ip = a, allowed_ips = a @ ''/32'',
                 client_config = None\<rparr>"
  assumes "user_id \<notin> fst ` set (users s)"
    and "genkey e = Inr priv" and "pubkey e priv = Inr pub"
    and "get_next_ip cfg (used_ips s) = Inr a"
    and "returncode (awg e [''set'', INTERFACE_NAME cfg, ''peer'', pub, ''allowed-ips'', a @ ''/32'']) = 0"
    and "write_error e = None"
  shows "create_user cfg e user_id name_arg s =
           (Inr (length (heap s)),
            s\<lparr>heap := heap s @ [u\<lparr>client_config := Some (generate_client_config cfg u)\<rparr>],
              users := users s @ [(user_id, length (heap s))],
              used_ips := insert a (used_ips s),
              users_file := Some (map (\<lambda>(k, r). (k, (heap s @ [u]) ! r)) (users s) @ [(user_id, u)]),
              calls := calls s @ [[''awg'', ''genkey''], [''awg'', ''pubkey''],
                 [''awg'', ''set'', INTERFACE_NAME cfg, ''peer'', pub, ''allowed-ips'', a @ ''/32'']]\<rparr>)"
  using assms(2-)
  by (simp add: create_user_def generate_keypair_ok add_peer_ok save_users_def store_def
        update_absent Let_def u_def)

subsection \<open>Association lists and the store\<close>

lemma filter_key_distinct:
  "distinct (map fst xs) \<Longrightarrow> map_of xs k = Some v \<Longrightarrow> filter (\<lambda>p. fst p = k) xs = [(k, v)]"
proof (induction xs)
  case Nil
  then show ?case by simp
next
  case (Cons p xs)
  show ?case
  proof (cases "fst p = k")
    case True
    with Cons.prems have "p = (k, v)" by (cases p) auto
    moreover from True Cons.prems have "k \<notin> fst ` set xs" by auto
    then have "filter (\<lambda>p. fst p = k) xs = []" by (auto simp: filter_empty_conv)
    ultimately show ?thesis by simp
  next
    case False
    with Cons show ?thesis by auto
  qed
qed

lemma map_of_map_snd:
  "map_of (map (\<lambda>p. (fst p, f (snd p))) xs) k = map_option f (map_of xs k)"
  by (induction xs) auto

lemma map_of_store:
  "map_of (store s) k = map_option (\<lambda>r. heap s ! r) (map_of (users s) k)"
  by (simp add: store_def split_def map_of_map_snd)

lemma store_keys: "map fst (store s) = map fst (users s)"
  by (simp add: store_def split_def comp_def)

subsection \<open>The first user on a fresh service\<close>

lemma init_None: "init None cs = \<lparr>heap = [], users = [], used_ips = {}, users_file = None, calls = cs\<rparr>"
  by (simp add: init_def load_users_def)

lemma hosts_example:
  "hosts \<lparr>network_address = 168296448, prefixlen = 24\<rparr> = [168296449..<168296703]"
  by (simp add: hosts_def broadcast_address_def hostmask_def)

lemma scan_upt:
  "a < b \<Longrightarrow> scan_hosts st used [a..<b] =
     (if a < st then scan_hosts st used [Suc a..<b]
      else if str_ip a \<notin> used then Some (str_ip a)
      else scan_hosts st used [Suc a..<b])"
  by (simp add: upt_conv_Cons)

lemma str_ip_2: "str_ip 168296450 = ''10.8.0.2''"
  by (simp add: str_ip_def str_nat.simps digit_def)

lemma str_ip_3: "str_ip 168296451 = ''10.8.0.3''"
  by (simp add: str_ip_def str_nat.simps digit_def)

lemma str_ip_4: "str_ip 168296452 = ''10.8.0.4''"
  by (simp add: str_ip_def str_nat.simps digit_def)

lemma next_ip_example_0: "get_next_ip example_config {} = Inr ''10.8.0.2''"
  by (simp add: get_next_ip_def hosts_example scan_upt str_ip_2 example_config_def)

lemma next_ip_example_1: "get_next_ip example_config {''10.8.0.2''} = Inr ''10.8.0.3''"
  by (simp add: get_next_ip_def hosts_example scan_upt str_ip_2 str_ip_3 example_config_def)

lemma state_a_eq:
  "state_a =
     \<lparr>heap = [\<lparr>uid = ''a'', name = ''a'', private_key = ''cHJpdmF0ZQ'',
               public_key = ''pub-cHJpdmF0ZQ'', ip = ''10.8.0.2'', allowed_ips = ''10.8.0.2/32'',
               client_config = Some (generate_client_config example_config
                 \<lparr>uid = ''a'', name = ''a'', private_key = ''cHJpdmF0ZQ'',
                  public_key = ''pub-cHJpdmF0ZQ'', ip = ''10.8.0.2'', allowed_ips = ''10.8.0.2/32'',
                  client_config = None\<rparr>)\<rparr>],
      users = [(''a'', 0)],
      used_ips = {''10.8.0.2''},
      users_file = Some [(''a'', \<lparr>uid = ''a'', name = ''a'', private_key = ''cHJpdmF0ZQ'',
               public_key = ''pub-cHJpdmF0ZQ'', ip = ''10.8.0.2'', allowed_ips = ''10.8.0.2/32'',
               client_config = None\<rparr>)],
      calls = [[''awg'', ''genkey''], [''awg'', ''pubkey''],
               [''awg'', ''set'', ''awg0'', ''peer'', ''pub-cHJpdmF0ZQ'', ''allowed-ips'', ''10.8.0.2/32'']]\<rparr>"
  (is "_ = ?rhs")
proof -
  have "create_user example_config example_env ''a'' None (init None []) = (Inr 0, ?rhs)"
    by (subst create_user_success [where priv = "''cHJpdmF0ZQ''" and pub = "''pub-cHJpdmF0ZQ''" and a = "''10.8.0.2''"])
       (simp_all add: init_None next_ip_example_0 example_env_def, simp add: example_config_def)
  then show ?thesis by (simp add: state_a_def)
qed

section \<open>Duplicate ids\<close>

text \<open>
  C4. When the id is already in the store, \<^verbatim>\<open>create_user\<close> fails with DuplicateUser and
  the whole state, including the log of external commands, is what it was; the store
  (a dict, so with distinct keys) holds exactly one record for the id, the original one.
\<close>

theorem create_user_duplicate:
  assumes "keys_distinct s" and "map_of (users s) user_id = Some r"
  shows "create_user cfg e user_id name_arg s = (Inl (DuplicateUser user_id), s) \<and>
         filter (\<lambda>p. fst p = user_id) (store s) = [(user_id, heap s ! r)] \<and>
         ip (heap (snd (create_user cfg e user_id name_arg s)) ! r) = ip (heap s ! r) \<and>
         used_ips (snd (create_user cfg e user_id name_arg s)) = used_ips s"
proof -
  from assms(2) have "user_id \<in> fst ` set (users s)"
    by (metis map_of_SomeD fst_conv image_eqI)
  then have res: "create_user cfg e user_id name_arg s = (Inl (DuplicateUser user_id), s)"
    by (simp add: create_user_def DuplicateUser_def)
  from assms have "distinct (map fst (store s))"
    by (simp add: store_keys keys_distinct_def)
  moreover from assms(2) have "map_of (store s) user_id = Some (heap s ! r)"
    by (simp add: map_of_store)
  ultimately have "filter (\<lambda>p. fst p = user_id) (store s) = [(user_id, heap s ! r)]"
    by (rule filter_key_distinct)
  with res show ?thesis by simp
qed

theorem create_user_duplicate_witness:
  "keys_distinct state_a \<and> map_of (users state_a) ''a'' = Some 0 \<and>
   create_user example_config example_env ''a'' (Some ''again'') state_a =
     (Inl (DuplicateUser ''a''), state_a) \<and>
   filter (\<lambda>p. fst p = ''a'') (store state_a) = [(''a'', heap state_a ! 0)] \<and>
   ip (heap state_a ! 0) = ''10.8.0.2''"
proof -
  have k: "keys_distinct state_a" by (simp add: keys_distinct_def state_a_eq)
  have m: "map_of (users state_a) ''a'' = Some 0" by (simp add: state_a_eq)
  have "ip (heap state_a ! 0) = ''10.8.0.2''" by (simp add: state_a_eq)
  with k m create_user_duplicate [OF k m, of example_config example_env "Some ''again''"]
  show ?thesis by simp
qed

section \<open>Failures of \<^verbatim>\<open>delete_user\<close>\<close>

lemma remove_peer_ok:
  "returncode (awg e [''set'', INTERFACE_NAME cfg, ''peer'', pub, ''remove'']) = 0 \<Longrightarrow>
   remove_peer cfg e pub s =
     (Inr (), s\<lparr>calls := calls s @ [[''awg'', ''set'', INTERFACE_NAME cfg, ''peer'', pub, ''remove'']]\<rparr>)"
  by (simp add: remove_peer_def run_awg_command_def Let_def)

lemma remove_peer_fail:
  "returncode (awg e [''set'', INTERFACE_NAME cfg, ''peer'', pub, ''remove'']) \<noteq> 0 \<Longrightarrow>
   remove_peer cfg e pub s =
     (Inl (PeerCommandFailed (stderr (awg e [''set'', INTERFACE_NAME cfg, ''peer'', pub, ''remove'']))),
      s\<lparr>calls := calls s @ [[''awg'', ''set'', INTERFACE_NAME cfg, ''peer'', pub, ''remove'']]\<rparr>)"
  by (simp add: remove_peer_def run_awg_command_def Let_def PeerCommandFailed_def)

lemma store_calls_update [simp]: "store (s\<lparr>calls := c\<rparr>) = store s"
  by (simp add: store_def)

text \<open>
  C3. \<^verbatim>\<open>delete_user\<close> on an id that is not stored fails with UserNotFound and changes
  nothing. On a stored id whose peer removal exits with a non-zero status it fails with
  PeerCommandFailed carrying the tool's error output; the only change is the logged
  command, so the record, the used set and the document are as before.
\<close>

theorem delete_user_failures:
  "(map_of (users s) user_id = None \<longrightarrow>
      delete_user cfg e user_id s = (Inl (UserNotFound user_id), s)) \<and>
   (map_of (users s) user_id = Some r \<and>
    returncode (awg e [''set'', INTERFACE_NAME cfg, ''peer'', public_key (heap s ! r), ''remove'']) \<noteq> 0 \<longrightarrow>
      delete_user cfg e user_id s =
        (Inl (PeerCommandFailed
           (stderr (awg e [''set'', INTERFACE_NAME cfg, ''peer'', public_key (heap s ! r), ''remove'']))),
         s\<lparr>calls := calls s @
           [[''awg'', ''set'', INTERFACE_NAME cfg, ''peer'', public_key (heap s ! r), ''remove'']]\<rparr>) \<and>
      store (snd (delete_user cfg e user_id s)) = store s \<and>
      map_of (store (snd (delete_user cfg e user_id s))) user_id = Some (heap s ! r) \<and>
      used_ips (snd (delete_user cfg e user_id s)) = used_ips s \<and>
      users_file (snd (delete_user cfg e user_id s)) = users_file s)"
  by (simp add: delete_user_def UserNotFound_def remove_peer_fail map_of_store)

theorem delete_user_failures_witness:
  "map_of (users (init None [])) ''a'' = None \<and>
   delete_user example_config example_env ''a'' (init None []) = (Inl (UserNotFound ''a''), init None []) \<and>
   map_of (users state_a) ''a'' = Some 0 \<and>
   returncode (awg failing_env
      [''set'', INTERFACE_NAME example_config, ''peer'', public_key (heap state_a ! 0), ''remove'']) \<noteq> 0 \<and>
   fst (delete_user example_config failing_env ''a'' state_a) =
      Inl (PeerCommandFailed ''Unable to modify interface'') \<and>
   store (snd (delete_user example_config failing_env ''a'' state_a)) = store state_a \<and>
   used_ips (snd (delete_user example_config failing_env ''a'' state_a)) = {''10.8.0.2''}"
proof -
  have a: "map_of (users (init None [])) ''a'' = None" by (simp add: init_None)
  have b: "map_of (users state_a) ''a'' = Some 0" by (simp add: state_a_eq)
  have c: "returncode (awg failing_env
      [''set'', INTERFACE_NAME example_config, ''peer'', public_key (heap state_a ! 0), ''remove'']) \<noteq> 0"
    by (simp add: failing_env_def)
  have d: "stderr (awg failing_env
      [''set'', INTERFACE_NAME example_config, ''peer'', public_key (heap state_a ! 0), ''remove'']) =
      ''Unable to modify interface''"
    by (simp add: failing_env_def)
  have u: "used_ips state_a = {''10.8.0.2''}" by (simp add: state_a_eq)
  from a b c d u
    delete_user_failures [where s = "init None []" and user_id = "''a''" and cfg = example_config
      and e = example_env and r = 0]
    delete_user_failures [where s = state_a and user_id = "''a''" and cfg = example_config
      and e = failing_env and r = 0]
  show ?thesis by simp
qed

section \<open>Failure of the peer registration\<close>

text \<open>
  C1. When the id is new, a key pair and an address \<open>a\<close> have been obtained and the
  \<^verbatim>\<open>awg set ... peer ... allowed-ips\<close> command exits with a non-zero status,
  \<^verbatim>\<open>create_user\<close> fails with PeerCommandFailed. The state differs from the one before
  only by the unreferenced dict and the logged commands: \<open>a\<close> is not in the used set and
  is what the next allocation returns, and the store has no record for the id.
\<close>

theorem create_user_peer_failure:
  assumes "user_id \<notin> fst ` set (users s)"
    and "genkey e = Inr priv" and "pubkey e priv = Inr pub"
    and "get_next_ip cfg (used_ips s) = Inr a"
    and "returncode (awg e [''set'', INTERFACE_NAME cfg, ''peer'', pub, ''allowed-ips'', a @ ''/32'']) \<noteq> 0"
  shows "fst (create_user cfg e user_id name_arg s) =
           Inl (PeerCommandFailed
             (stderr (awg e [''set'', INTERFACE_NAME cfg, ''peer'', pub, ''allowed-ips'', a @ ''/32'']))) \<and>
         users (snd (create_user cfg e user_id name_arg s)) = users s \<and>
         used_ips (snd (create_user cfg e user_id name_arg s)) = used_ips s \<and>
         users_file (snd (create_user cfg e user_id name_arg s)) = users_file s \<and>
         a \<notin> used_ips (snd (create_user cfg e user_id name_arg s)) \<and>
         get_next_ip cfg (used_ips (snd (create_user cfg e user_id name_arg s))) = Inr a \<and>
         user_id \<notin> fst ` set (store (snd (create_user cfg e user_id name_arg s))) \<and>
         take (length (heap s)) (heap (snd (create_user cfg e user_id name_arg s))) = heap s"
proof -
  have "a \<notin> used_ips s" using assms(4) by (rule get_next_ip_not_used)
  moreover have "fst ` set (store t) = fst ` set (users t)" for t
    using store_keys [of t] by (metis set_map)
  ultimately show ?thesis
    using assms
    by (simp add: create_user_def generate_keypair_ok add_peer_fail Let_def)
qed

theorem create_user_peer_failure_witness:
  "''a'' \<notin> fst ` set (users (init None [])) \<and>
   get_next_ip example_config (used_ips (init None [])) = Inr ''10.8.0.2'' \<and>
   fst (create_user example_config failing_env ''a'' None (init None [])) =
     Inl (PeerCommandFailed ''Unable to modify interface'') \<and>
   users (snd (create_user example_config failing_env ''a'' None (init None []))) = [] \<and>
   used_ips (snd (create_user example_config failing_env ''a'' None (init None []))) = {} \<and>
   users_file (snd (create_user example_config failing_env ''a'' None (init None []))) = None"
proof -
  have a: "''a'' \<notin> fst ` set (users (init None []))" by (simp add: init_None)
  have b: "genkey failing_env = Inr ''cHJpdmF0ZQ''" by (simp add: failing_env_def)
  have c: "pubkey failing_env ''cHJpdmF0ZQ'' = Inr ''pub-cHJpdmF0ZQ''" by (simp add: failing_env_def)
  have d: "get_next_ip example_config (used_ips (init None [])) = Inr ''10.8.0.2''"
    by (simp add: init_None next_ip_example_0)
  have f: "returncode (awg failing_env [''set'', INTERFACE_NAME example_config, ''peer'',
              ''pub-cHJpdmF0ZQ'', ''allowed-ips'', ''10.8.0.2'' @ ''/32'']) \<noteq> 0"
    by (simp add: failing_env_def)
  have g: "stderr (awg failing_env [''set'', INTERFACE_NAME example_config, ''peer'',
              ''pub-cHJpdmF0ZQ'', ''allowed-ips'', ''10.8.0.2'' @ ''/32'']) = ''Unable to modify interface''"
    by (simp add: failing_env_def)
  have h: "users (init None []) = []" "used_ips (init None []) = {}" "users_file (init None []) = None"
    by (simp_all add: init_None)
  from create_user_peer_failure [OF a b c d f, where name_arg = None] a d g h
  show ?thesis by simp
qed

section \<open>The empty name\<close>

text \<open>
  C9. An empty \<^verbatim>\<open>name\<close> argument is not distinguished from a missing one: the two calls
  are the same function of the state, and a successful call with the empty name stores
  and returns a record whose \<^verbatim>\<open>name\<close> is the id.
\<close>

theorem create_user_empty_name:
  assumes "user_id \<notin> fst ` set (users s)"
    and "genkey e = Inr priv" and "pubkey e priv = Inr pub"
    and "get_next_ip cfg (used_ips s) = Inr a"
    and "returncode (awg e [''set'', INTERFACE_NAME cfg, ''peer'', pub, ''allowed-ips'', a @ ''/32'']) = 0"
    and "write_error e = None"
  shows "create_user cfg e user_id (Some []) s = create_user cfg e user_id None s \<and>
         fst (create_user cfg e user_id (Some []) s) = Inr (length (heap s)) \<and>
         map_of (users (snd (create_user cfg e user_id (Some []) s))) user_id = Some (length (heap s)) \<and>
         name (heap (snd (create_user cfg e user_id (Some []) s)) ! length (heap s)) = user_id"
proof -
  have "map_of (xs @ [(user_id, v)]) user_id = Some v" if "user_id \<notin> fst ` set xs"
    for xs :: "(string \<times> nat) list" and v
    using that by (induction xs) auto
  with assms show ?thesis
    by (simp add: create_user_success [OF assms])
qed

theorem create_user_empty_name_witness:
  "''a'' \<notin> fst ` set (users (init None [])) \<and>
   create_user example_config example_env ''a'' (Some []) (init None []) =
     create_user example_config example_env ''a'' None (init None []) \<and>
   fst (create_user example_config example_env ''a'' (Some []) (init None [])) = Inr 0 \<and>
   name (heap (snd (create_user example_config example_env ''a'' (Some []) (init None []))) ! 0) = ''a''"
proof -
  have a: "''a'' \<notin> fst ` set (users (init None []))" by (simp add: init_None)
  have b: "genkey example_env = Inr ''cHJpdmF0ZQ''" by (simp add: example_env_def)
  have c: "pubkey example_env ''cHJpdmF0ZQ'' = Inr ''pub-cHJpdmF0ZQ''" by (simp add: example_env_def)
  have d: "get_next_ip example_config (used_ips (init None [])) = Inr ''10.8.0.2''"
    by (simp add: init_None next_ip_example_0)
  have f: "returncode (awg example_env [''set'', INTERFACE_NAME example_config, ''peer'',
              ''pub-cHJpdmF0ZQ'', ''allowed-ips'', ''10.8.0.2'' @ ''/32'']) = 0"
    by (simp add: example_env_def)
  have g: "write_error example_env = None" by (simp add: example_env_def)
  have h: "heap (init None []) = []" by (simp add: init_None)
  note t = create_user_empty_name [OF a b c d f g, unfolded h list.size]
  from t a show ?thesis by blast
qed

section \<open>The read operations\<close>

text \<open>
  C8. The three read operations leave the store, the used set and the document as they
  are. \<^verbatim>\<open>get_user\<close> allocates a copy and attaches the rendered configuration to the
  copy: the dict the store refers to is the same as before. \<^verbatim>\<open>list_users\<close> changes
  nothing at all; \<^verbatim>\<open>get_server_status\<close> only runs \<^verbatim>\<open>awg show\<close>.
\<close>

theorem reads_leave_store_and_pool:
  assumes "refs_valid s"
  shows "store (snd (get_user cfg user_id s)) = store s \<and>
         users (snd (get_user cfg user_id s)) = users s \<and>
         used_ips (snd (get_user cfg user_id s)) = used_ips s \<and>
         users_file (snd (get_user cfg user_id s)) = users_file s \<and>
         (\<forall>r. map_of (users s) user_id = Some r \<longrightarrow>
            fst (get_user cfg user_id s) = Some (length (heap s)) \<and>
            heap (snd (get_user cfg user_id s)) ! length (heap s) =
              (heap s ! r)\<lparr>client_config := Some (generate_client_config cfg (heap s ! r))\<rparr> \<and>
            heap (snd (get_user cfg user_id s)) ! r = heap s ! r) \<and>
         snd (list_users s) = s \<and>
         store (snd (get_server_status cfg e s)) = store s \<and>
         users (snd (get_server_status cfg e s)) = users s \<and>
         used_ips (snd (get_server_status cfg e s)) = used_ips s \<and>
         users_file (snd (get_server_status cfg e s)) = users_file s"
proof -
  have valid: "r < length (heap s)" if "map_of (users s) user_id = Some r" for r
    using that assms by (auto simp: refs_valid_def dest!: map_of_SomeD intro: rev_image_eqI)
  have get: "store (snd (get_user cfg user_id s)) = store s"
    using assms
    by (auto simp: get_user_def Let_def store_def refs_valid_def nth_append split: option.splits)
  have status: "snd (get_server_status cfg e s) = s\<lparr>calls := calls s @ [[''awg'', ''show'', INTERFACE_NAME cfg]]\<rparr>"
    by (simp add: get_server_status_def run_awg_command_def Let_def)
  show ?thesis
    using get valid
    by (auto simp: status list_users_def get_user_def Let_def nth_append split: option.splits)
qed

theorem reads_leave_store_and_pool_witness:
  "refs_valid state_a \<and>
   store (snd (get_user example_config ''a'' state_a)) = store state_a \<and>
   used_ips (snd (get_user example_config ''a'' state_a)) = {''10.8.0.2''} \<and>
   fst (get_user example_config ''a'' state_a) = Some 1 \<and>
   heap (snd (get_user example_config ''a'' state_a)) ! 0 = heap state_a ! 0 \<and>
   snd (list_users state_a) = state_a \<and>
   store (snd (get_server_status example_config failing_env state_a)) = store state_a \<and>
   used_ips (snd (get_server_status example_config failing_env state_a)) = {''10.8.0.2''}"
proof -
  have v: "refs_valid state_a" by (simp add: refs_valid_def state_a_eq)
  have m: "map_of (users state_a) ''a'' = Some 0" by (simp add: state_a_eq)
  have u: "used_ips state_a = {''10.8.0.2''}" by (simp add: state_a_eq)
  have l: "length (heap state_a) = 1" by (simp add: state_a_eq)
  from reads_leave_store_and_pool [OF v, where cfg = example_config and user_id = "''a''" and e = failing_env]
    v m u l
  show ?thesis by simp
qed

section \<open>Allocation order and exhaustion\<close>

lemma delete_user_success:
  assumes "map_of (users s) user_id = Some r"
    and "returncode (awg e [''set'', INTERFACE_NAME cfg, ''peer'', public_key (heap s ! r), ''remove'']) = 0"
    and "write_error e = None"
  shows "delete_user cfg e user_id s =
           (Inr True,
            s\<lparr>used_ips := used_ips s - {ip (heap s ! r)},
              users := AList.delete user_id (users s),
              users_file := Some (map (\<lambda>(k, r). (k, heap s ! r)) (AList.delete user_id (users s))),
              calls := calls s @
                [[''awg'', ''set'', INTERFACE_NAME cfg, ''peer'', public_key (heap s ! r), ''remove'']]\<rparr>)"
  using assms
  by (simp add: delete_user_def remove_peer_ok save_users_def store_def Let_def)

lemma create_user_exhausted:
  assumes "user_id \<notin> fst ` set (users s)"
    and "genkey e = Inr priv" and "pubkey e priv = Inr pub"
    and "get_next_ip cfg (used_ips s) = Inl err"
  shows "create_user cfg e user_id name_arg s =
           (Inl err, s\<lparr>calls := calls s @ [[''awg'', ''genkey''], [''awg'', ''pubkey'']]\<rparr>)"
  using assms by (simp add: create_user_def generate_keypair_ok)

lemma get_next_ip_least:
  assumes "\<exists>h\<in>set (hosts (VPN_NETWORK cfg)). VPN_NETWORK_START cfg \<le> h \<and> str_ip h \<notin> used"
  shows "get_next_ip cfg used =
           Inr (str_ip (LEAST h. h \<in> set (hosts (VPN_NETWORK cfg)) \<and>
                                 VPN_NETWORK_START cfg \<le> h \<and> str_ip h \<notin> used))"
proof -
  from assms have "scan_hosts (VPN_NETWORK_START cfg) used (hosts (VPN_NETWORK cfg)) \<noteq> None"
    by (auto simp: scan_hosts_None)
  then obtain r where r: "scan_hosts (VPN_NETWORK_START cfg) used (hosts (VPN_NETWORK cfg)) = Some r"
    by blast
  from scan_hosts_Some [OF sorted_hosts r]
  obtain h where h: "h \<in> set (hosts (VPN_NETWORK cfg))" "r = str_ip h"
      "VPN_NETWORK_START cfg \<le> h" "str_ip h \<notin> used"
      "\<forall>h'\<in>set (hosts (VPN_NETWORK cfg)). VPN_NETWORK_START cfg \<le> h' \<and> str_ip h' \<notin> used \<longrightarrow> h \<le> h'"
    by blast
  then have "(LEAST h. h \<in> set (hosts (VPN_NETWORK cfg)) \<and>
                 VPN_NETWORK_START cfg \<le> h \<and> str_ip h \<notin> used) = h"
    by (intro Least_equality) auto
  with r h show ?thesis by (simp add: get_next_ip_def)
qed

lemma get_next_ip_exhausted:
  assumes "\<forall>h\<in>set (hosts (VPN_NETWORK cfg)). VPN_NETWORK_START cfg \<le> h \<longrightarrow> str_ip h \<in> used"
  shows "get_next_ip cfg used = Inl PoolExhausted"
proof -
  from assms have "scan_hosts (VPN_NETWORK_START cfg) used (hosts (VPN_NETWORK cfg)) = None"
    by (simp add: scan_hosts_None)
  then show ?thesis by (simp add: get_next_ip_def PoolExhausted_def)
qed

lemma example_env_simps:
  "genkey example_env = Inr ''cHJpdmF0ZQ''"
  "pubkey example_env k = Inr (''pub-'' @ k)"
  "returncode (awg example_env args) = 0"
  "write_error example_env = None"
  by (simp_all add: example_env_def)

lemma next_ip_example_2: "get_next_ip example_config {''10.8.0.2'', ''10.8.0.3''} = Inr ''10.8.0.4''"
  by (simp add: get_next_ip_def hosts_example scan_upt str_ip_2 str_ip_3 str_ip_4 example_config_def)

lemma next_ip_example_3: "get_next_ip example_config {''10.8.0.3'', ''10.8.0.4''} = Inr ''10.8.0.2''"
  by (simp add: get_next_ip_def hosts_example scan_upt str_ip_2 example_config_def)

lemma state_ab_fields:
  "users state_ab = [(''a'', 0), (''b'', 1)]"
  "used_ips state_ab = {''10.8.0.2'', ''10.8.0.3''}"
  "map ip (heap state_ab) = [''10.8.0.2'', ''10.8.0.3'']"
proof -
  have "get_next_ip example_config (used_ips state_a) = Inr ''10.8.0.3''"
    by (simp add: state_a_eq next_ip_example_1)
  from create_user_success [where s = state_a and e = example_env and cfg = example_config
      and user_id = "''b''" and name_arg = None, OF _ example_env_simps(1,2) this example_env_simps(3,4)]
  have "users state_ab = [(''a'', 0), (''b'', 1)] \<and> used_ips state_ab = {''10.8.0.2'', ''10.8.0.3''} \<and>
        map ip (heap state_ab) = [''10.8.0.2'', ''10.8.0.3'']"
    by (auto simp: state_ab_def state_a_eq)
  then show "users state_ab = [(''a'', 0), (''b'', 1)]"
    "used_ips state_ab = {''10.8.0.2'', ''10.8.0.3''}"
    "map ip (heap state_ab) = [''10.8.0.2'', ''10.8.0.3'']" by simp_all
qed

lemma nth_of_map_eq: "map f xs = ys \<Longrightarrow> i < length ys \<Longrightarrow> f (xs ! i) = ys ! i"
  by auto

lemma state_abc_fields:
  "users state_abc = [(''a'', 0), (''b'', 1), (''c'', 2)]"
  "used_ips state_abc = {''10.8.0.2'', ''10.8.0.3'', ''10.8.0.4''}"
  "map ip (heap state_abc) = [''10.8.0.2'', ''10.8.0.3'', ''10.8.0.4'']"
proof -
  have "get_next_ip example_config (used_ips state_ab) = Inr ''10.8.0.4''"
    by (simp add: state_ab_fields next_ip_example_2)
  from create_user_success [where s = state_ab and e = example_env and cfg = example_config
      and user_id = "''c''" and name_arg = None, OF _ example_env_simps(1,2) this example_env_simps(3,4)]
  have "users state_abc = [(''a'', 0), (''b'', 1), (''c'', 2)] \<and>
        used_ips state_abc = {''10.8.0.2'', ''10.8.0.3'', ''10.8.0.4''} \<and>
        map ip (heap state_abc) = [''10.8.0.2'', ''10.8.0.3'', ''10.8.0.4'']"
    using state_ab_fields(3) [symmetric]
    by (auto simp: state_abc_def state_ab_fields(1,2) dest: map_eq_imp_length_eq)
  then show "users state_abc = [(''a'', 0), (''b'', 1), (''c'', 2)]"
    "used_ips state_abc = {''10.8.0.2'', ''10.8.0.3'', ''10.8.0.4''}"
    "map ip (heap state_abc) = [''10.8.0.2'', ''10.8.0.3'', ''10.8.0.4'']" by simp_all
qed

lemma state_bc_fields:
  "users state_bc = [(''b'', 1), (''c'', 2)]"
  "used_ips state_bc = {''10.8.0.3'', ''10.8.0.4''}"
  "heap state_bc = heap state_abc"
proof -
  have m: "map_of (users state_abc) ''a'' = Some 0" by (simp add: state_abc_fields)
  have i: "ip (heap state_abc ! 0) = ''10.8.0.2''"
    using nth_of_map_eq [OF state_abc_fields(3), of 0] by simp
  from delete_user_success [OF m example_env_simps(3,4), where cfg = example_config]
  have eq: "state_bc = state_abc\<lparr>used_ips := used_ips state_abc - {''10.8.0.2''},
              users := AList.delete ''a'' (users state_abc),
              users_file := Some (map (\<lambda>(k, r). (k, heap state_abc ! r)) (AList.delete ''a'' (users state_abc))),
              calls := calls state_abc @
                [[''awg'', ''set'', INTERFACE_NAME example_config, ''peer'', public_key (heap state_abc ! 0), ''remove'']]\<rparr>"
    by (simp add: state_bc_def i)
  show "users state_bc = [(''b'', 1), (''c'', 2)]"
    by (subst eq) (simp add: state_abc_fields(1))
  show "used_ips state_bc = {''10.8.0.3'', ''10.8.0.4''}"
    by (subst eq) (auto simp: state_abc_fields(2))
  show "heap state_bc = heap state_abc"
    by (subst eq) simp
qed

lemma state_bcd_fields:
  "users state_bcd = [(''b'', 1), (''c'', 2), (''d'', 3)]"
  "used_ips state_bcd = {''10.8.0.2'', ''10.8.0.3'', ''10.8.0.4''}"
  "map ip (heap state_bcd) = [''10.8.0.2'', ''10.8.0.3'', ''10.8.0.4'', ''10.8.0.2'']"
proof -
  have "get_next_ip example_config (used_ips state_bc) = Inr ''10.8.0.2''"
    by (simp add: state_bc_fields next_ip_example_3)
  from create_user_success [where s = state_bc and e = example_env and cfg = example_config
      and user_id = "''d''" and name_arg = None, OF _ example_env_simps(1,2) this example_env_simps(3,4)]
  have "users state_bcd = [(''b'', 1), (''c'', 2), (''d'', 3)] \<and>
        used_ips state_bcd = {''10.8.0.2'', ''10.8.0.3'', ''10.8.0.4''} \<and>
        map ip (heap state_bcd) = [''10.8.0.2'', ''10.8.0.3'', ''10.8.0.4'', ''10.8.0.2'']"
    using state_abc_fields(3) [symmetric]
    by (auto simp: state_bcd_def state_bc_fields dest: map_eq_imp_length_eq)
  then show "users state_bcd = [(''b'', 1), (''c'', 2), (''d'', 3)]"
    "used_ips state_bcd = {''10.8.0.2'', ''10.8.0.3'', ''10.8.0.4''}"
    "map ip (heap state_bcd) = [''10.8.0.2'', ''10.8.0.3'', ''10.8.0.4'', ''10.8.0.2'']" by simp_all
qed

lemma store_ips_eq: "store_ips s = map (\<lambda>(k, r). ip (heap s ! r)) (users s)"
  by (simp add: store_ips_def store_def split_def comp_def)

lemma hosts_small:
  "hosts \<lparr>network_address = 168296448, prefixlen = 30\<rparr> = [168296449, 168296450]"
  by (simp add: hosts_def broadcast_address_def hostmask_def upt_conv_Cons)

lemma next_ip_small_0: "get_next_ip small_config {} = Inr ''10.8.0.2''"
  by (simp add: get_next_ip_def hosts_small str_ip_2 small_config_def example_config_def)

lemma state_full_eq:
  "state_full =
     \<lparr>heap = [\<lparr>uid = ''a'', name = ''a'', private_key = ''cHJpdmF0ZQ'',
               public_key = ''pub-cHJpdmF0ZQ'', ip = ''10.8.0.2'', allowed_ips = ''10.8.0.2/32'',
               client_config = Some (generate_client_config small_config
                 \<lparr>uid = ''a'', name = ''a'', private_key = ''cHJpdmF0ZQ'',
                  public_key = ''pub-cHJpdmF0ZQ'', ip = ''10.8.0.2'', allowed_ips = ''10.8.0.2/32'',
                  client_config = None\<rparr>)\<rparr>],
      users = [(''a'', 0)],
      used_ips = {''10.8.0.2''},
      users_file = Some [(''a'', \<lparr>uid = ''a'', name = ''a'', private_key = ''cHJpdmF0ZQ'',
               public_key = ''pub-cHJpdmF0ZQ'', ip = ''10.8.0.2'', allowed_ips = ''10.8.0.2/32'',
               client_config = None\<rparr>)],
      calls = [[''awg'', ''genkey''], [''awg'', ''pubkey''],
               [''awg'', ''set'', ''awg0'', ''peer'', ''pub-cHJpdmF0ZQ'', ''allowed-ips'', ''10.8.0.2/32'']]\<rparr>"
  (is "_ = ?rhs")
proof -
  have "create_user small_config example_env ''a'' None (init None []) = (Inr 0, ?rhs)"
    by (subst create_user_success [where priv = "''cHJpdmF0ZQ''" and pub = "''pub-cHJpdmF0ZQ''" and a = "''10.8.0.2''"])
       (simp_all add: init_None next_ip_small_0 example_env_def, simp add: small_config_def example_config_def)
  then show ?thesis by (simp add: state_full_def)
qed

text \<open>
  C5. \<^verbatim>\<open>_get_next_ip\<close> returns the string of the least host address of the subnet that
  is not below the start address and whose string is not in the used set, whenever there
  is one; when there is none it raises PoolExhausted, and a \<^verbatim>\<open>create_user\<close> that
  reaches the allocation then fails with it after the two key commands only: no
  \<^verbatim>\<open>awg set\<close> is run, and users, heap, used set and document are unchanged. With
  \<^verbatim>\<open>10.8.0.0/24\<close> and start \<^verbatim>\<open>10.8.0.2\<close>, three creates give \<^verbatim>\<open>10.8.0.2\<close>,
  \<^verbatim>\<open>10.8.0.3\<close>, \<^verbatim>\<open>10.8.0.4\<close>; after deleting the first user the next create gets
  \<^verbatim>\<open>10.8.0.2\<close> again, not \<^verbatim>\<open>10.8.0.5\<close>.
\<close>

theorem get_next_ip_lowest_free:
  "((\<exists>h\<in>set (hosts (VPN_NETWORK cfg)). VPN_NETWORK_START cfg \<le> h \<and> str_ip h \<notin> used) \<longrightarrow>
      get_next_ip cfg used =
        Inr (str_ip (LEAST h. h \<in> set (hosts (VPN_NETWORK cfg)) \<and>
                              VPN_NETWORK_START cfg \<le> h \<and> str_ip h \<notin> used))) \<and>
   ((\<forall>h\<in>set (hosts (VPN_NETWORK cfg)). VPN_NETWORK_START cfg \<le> h \<longrightarrow> str_ip h \<in> used) \<longrightarrow>
      get_next_ip cfg used = Inl PoolExhausted \<and>
      (\<forall>s e user_id name_arg priv pub.
         used_ips s = used \<and> user_id \<notin> fst ` set (users s) \<and>
         genkey e = Inr priv \<and> pubkey e priv = Inr pub \<longrightarrow>
         create_user cfg e user_id name_arg s =
           (Inl PoolExhausted, s\<lparr>calls := calls s @ [[''awg'', ''genkey''], [''awg'', ''pubkey'']]\<rparr>))) \<and>
   store_ips state_a = [''10.8.0.2''] \<and>
   store_ips state_ab = [''10.8.0.2'', ''10.8.0.3''] \<and>
   store_ips state_abc = [''10.8.0.2'', ''10.8.0.3'', ''10.8.0.4''] \<and>
   map fst (store state_bcd) = [''b'', ''c'', ''d''] \<and>
   store_ips state_bcd = [''10.8.0.3'', ''10.8.0.4'', ''10.8.0.2'']"
proof -
  have nth: "ip (xs ! i) = map ip xs ! i" if "i < length (map ip xs)" for xs :: "user list" and i
    using that by simp
  have a: "store_ips state_a = [''10.8.0.2'']"
    by (simp add: store_ips_eq state_a_eq)
  have b: "store_ips state_ab = [''10.8.0.2'', ''10.8.0.3'']"
    by (simp add: store_ips_eq state_ab_fields(1) nth state_ab_fields(3))
  have c: "store_ips state_abc = [''10.8.0.2'', ''10.8.0.3'', ''10.8.0.4'']"
    by (simp add: store_ips_eq state_abc_fields(1) nth state_abc_fields(3))
  have d: "store_ips state_bcd = [''10.8.0.3'', ''10.8.0.4'', ''10.8.0.2'']"
    by (simp add: store_ips_eq state_bcd_fields(1) nth state_bcd_fields(3))
  have k: "map fst (store state_bcd) = [''b'', ''c'', ''d'']"
    by (simp add: store_keys state_bcd_fields(1))
  show ?thesis
    using a b c d k
    by (auto simp: get_next_ip_least get_next_ip_exhausted intro!: create_user_exhausted)
qed

theorem get_next_ip_lowest_free_witness:
  "(\<exists>h\<in>set (hosts (VPN_NETWORK example_config)).
      VPN_NETWORK_START example_config \<le> h \<and> str_ip h \<notin> {''10.8.0.2''}) \<and>
   get_next_ip example_config {''10.8.0.2''} = Inr ''10.8.0.3'' \<and>
   str_ip (LEAST h. h \<in> set (hosts (VPN_NETWORK example_config)) \<and>
              VPN_NETWORK_START example_config \<le> h \<and> str_ip h \<notin> {''10.8.0.2''}) = ''10.8.0.3'' \<and>
   hosts (VPN_NETWORK small_config) = [168296449, 168296450] \<and>
   str_ip 168296450 \<in> used_ips state_full \<and>
   get_next_ip small_config (used_ips state_full) = Inl PoolExhausted \<and>
   create_user small_config example_env ''b'' None state_full =
     (Inl PoolExhausted,
      state_full\<lparr>calls := calls state_full @ [[''awg'', ''genkey''], [''awg'', ''pubkey'']]\<rparr>)"
proof -
  have ex: "\<exists>h\<in>set (hosts (VPN_NETWORK example_config)).
      VPN_NETWORK_START example_config \<le> h \<and> str_ip h \<notin> {''10.8.0.2''}"
    by (rule bexI [where x = 168296451]) (simp_all add: example_config_def hosts_example str_ip_3)
  have full: "\<forall>h\<in>set (hosts (VPN_NETWORK small_config)).
      VPN_NETWORK_START small_config \<le> h \<longrightarrow> str_ip h \<in> used_ips state_full"
    by (simp add: small_config_def example_config_def hosts_small state_full_eq str_ip_2)
  have new: "''b'' \<notin> fst ` set (users state_full)" by (simp add: state_full_eq)
  from get_next_ip_lowest_free [where cfg = example_config and used = "{''10.8.0.2''}"] ex
  have l: "get_next_ip example_config {''10.8.0.2''} =
        Inr (str_ip (LEAST h. h \<in> set (hosts (VPN_NETWORK example_config)) \<and>
              VPN_NETWORK_START example_config \<le> h \<and> str_ip h \<notin> {''10.8.0.2''}))"
    by blast
  from get_next_ip_lowest_free [where cfg = small_config and used = "used_ips state_full"] full
  have e: "get_next_ip small_config (used_ips state_full) = Inl PoolExhausted"
    and c: "\<And>s e user_id name_arg priv pub.
         used_ips s = used_ips state_full \<Longrightarrow> user_id \<notin> fst ` set (users s) \<Longrightarrow>
         genkey e = Inr priv \<Longrightarrow> pubkey e priv = Inr pub \<Longrightarrow>
         create_user small_config e user_id name_arg s =
           (Inl PoolExhausted, s\<lparr>calls := calls s @ [[''awg'', ''genkey''], [''awg'', ''pubkey'']]\<rparr>)"
    by blast+
  from l have "str_ip (LEAST h. h \<in> set (hosts (VPN_NETWORK example_config)) \<and>
              VPN_NETWORK_START example_config \<le> h \<and> str_ip h \<notin> {''10.8.0.2''}) = ''10.8.0.3''"
    by (simp add: next_ip_example_1)
  moreover have "hosts (VPN_NETWORK small_config) = [168296449, 168296450]"
    by (simp add: small_config_def example_config_def hosts_small)
  moreover have "str_ip 168296450 \<in> used_ips state_full"
    by (simp add: state_full_eq str_ip_2)
  ultimately show ?thesis
    using ex e c [OF refl new example_env_simps(1,2)] next_ip_example_1 by blast
qed

section \<open>The reported pool capacity\<close>

lemma scan_hosts_range:
  "scan_hosts st used xs = Some a \<Longrightarrow> a \<in> str_ip ` {h \<in> set xs. st \<le> h}"
  by (induction xs) (auto split: if_splits)

lemma get_server_status_ok:
  "returncode (awg e [''show'', INTERFACE_NAME cfg]) = 0 \<Longrightarrow>
   get_server_status cfg e s =
     (StatusRunning (INTERFACE_NAME cfg) (length (users s))
        (int (length (hosts (VPN_NETWORK cfg))) - int (card (used_ips s)))
        (stdout (awg e [''show'', INTERFACE_NAME cfg])),
      s\<lparr>calls := calls s @ [[''awg'', ''show'', INTERFACE_NAME cfg]]\<rparr>)"
  by (simp add: get_server_status_def run_awg_command_def Let_def)

lemma reachable_state_full: "reachable small_config state_full"
  unfolding state_full_def by (rule reachable.create) (rule reachable.start)

text \<open>
  C10. When \<^verbatim>\<open>awg show\<close> succeeds, \<^verbatim>\<open>available_ips\<close> is the number of all hosts of the
  subnet minus the size of the used set. The hosts split into those below the start
  address and the others, and the allocator only ever returns one of the others. So in
  the small pool, after one user, \<^verbatim>\<open>available_ips\<close> is 1 although every further
  \<^verbatim>\<open>create_user\<close> that reaches the allocation fails with PoolExhausted.
\<close>

theorem available_ips_counts_all_hosts:
  "(returncode (awg e [''show'', INTERFACE_NAME cfg]) = 0 \<longrightarrow>
      available_ips (fst (get_server_status cfg e s)) =
        int (length (hosts (VPN_NETWORK cfg))) - int (card (used_ips s))) \<and>
   length (hosts (VPN_NETWORK cfg)) =
     length (filter (\<lambda>h. h < VPN_NETWORK_START cfg) (hosts (VPN_NETWORK cfg))) +
     length (filter (\<lambda>h. VPN_NETWORK_START cfg \<le> h) (hosts (VPN_NETWORK cfg))) \<and>
   (\<forall>used a. get_next_ip cfg used = Inr a \<longrightarrow>
      a \<in> str_ip ` {h \<in> set (hosts (VPN_NETWORK cfg)). VPN_NETWORK_START cfg \<le> h}) \<and>
   reachable small_config state_full \<and>
   filter (\<lambda>h. h < VPN_NETWORK_START small_config) (hosts (VPN_NETWORK small_config)) = [168296449] \<and>
   available_ips (fst (get_server_status small_config example_env state_full)) = 1 \<and>
   (\<forall>e' user_id name_arg priv pub.
      user_id \<notin> fst ` set (users state_full) \<and> genkey e' = Inr priv \<and> pubkey e' priv = Inr pub \<longrightarrow>
      fst (create_user small_config e' user_id name_arg state_full) = Inl PoolExhausted)"
proof -
  have split: "length xs = length (filter (\<lambda>h. h < n) xs) + length (filter (\<lambda>h. n \<le> h) xs)"
    for xs :: "nat list" and n
    by (induction xs) auto
  have range: "a \<in> str_ip ` {h \<in> set (hosts (VPN_NETWORK cfg)). VPN_NETWORK_START cfg \<le> h}"
    if "get_next_ip cfg used = Inr a" for used a
    using that by (auto simp: get_next_ip_def split: option.splits dest!: scan_hosts_range)
  have below: "filter (\<lambda>h. h < VPN_NETWORK_START small_config) (hosts (VPN_NETWORK small_config)) = [168296449]"
    by (simp add: small_config_def example_config_def hosts_small)
  have avail: "available_ips (fst (get_server_status small_config example_env state_full)) = 1"
    by (simp add: get_server_status_ok example_env_simps)
       (simp add: small_config_def example_config_def hosts_small state_full_eq)
  have "get_next_ip small_config (used_ips state_full) = Inl PoolExhausted"
    by (rule get_next_ip_exhausted)
       (simp add: small_config_def example_config_def hosts_small state_full_eq str_ip_2)
  then have full: "fst (create_user small_config e' user_id name_arg state_full) = Inl PoolExhausted"
    if "user_id \<notin> fst ` set (users state_full)" "genkey e' = Inr priv" "pubkey e' priv = Inr pub"
    for e' user_id name_arg priv pub
    using that by (simp add: create_user_exhausted)
  show ?thesis
    using split [of "hosts (VPN_NETWORK cfg)" "VPN_NETWORK_START cfg"] range below avail full
      reachable_state_full
    by (simp add: get_server_status_ok)
qed

theorem available_ips_counts_all_hosts_witness:
  "returncode (awg example_env [''show'', INTERFACE_NAME example_config]) = 0 \<and>
   available_ips (fst (get_server_status example_config example_env state_a)) = 253 \<and>
   get_next_ip example_config (used_ips state_a) = Inr ''10.8.0.3'' \<and>
   ''10.8.0.3'' \<in> str_ip ` {h \<in> set (hosts (VPN_NETWORK example_config)). VPN_NETWORK_START example_config \<le> h} \<and>
   ''b'' \<notin> fst ` set (users state_full) \<and>
   fst (create_user small_config example_env ''b'' None state_full) = Inl PoolExhausted"
proof -
  note t = available_ips_counts_all_hosts [where cfg = example_config and e = example_env and s = state_a]
  have r: "returncode (awg example_env [''show'', INTERFACE_NAME example_config]) = 0"
    by (simp add: example_env_simps)
  have n: "get_next_ip example_config (used_ips state_a) = Inr ''10.8.0.3''"
    by (simp add: state_a_eq next_ip_example_1)
  have l: "int (length (hosts (VPN_NETWORK example_config))) - int (card (used_ips state_a)) = 253"
    by (simp add: example_config_def hosts_example state_a_eq)
  have new: "''b'' \<notin> fst ` set (users state_full)" by (simp add: state_full_eq)
  from t r l have 1: "available_ips (fst (get_server_status example_config example_env state_a)) = 253"
    by simp
  from t n have 2: "''10.8.0.3'' \<in> str_ip ` {h \<in> set (hosts (VPN_NETWORK example_config)). VPN_NETWORK_START example_config \<le> h}"
    by blast
  from t new example_env_simps(1,2)
  have 3: "fst (create_user small_config example_env ''b'' None state_full) = Inl PoolExhausted"
    by blast
  from r 1 n 2 new 3 show ?thesis by blast
qed

section \<open>The invariant of the reachable states\<close>

lemma generate_keypair_fail1:
  "genkey e = Inl m \<Longrightarrow>
   generate_keypair e s = (Inl (CalledProcessError m), s\<lparr>calls := calls s @ [[''awg'', ''genkey'']]\<rparr>)"
  by (simp add: generate_keypair_def Let_def)

lemma generate_keypair_fail2:
  "genkey e = Inr priv \<Longrightarrow> pubkey e priv = Inl m \<Longrightarrow>
   generate_keypair e s =
     (Inl (CalledProcessError m), s\<lparr>calls := calls s @ [[''awg'', ''genkey''], [''awg'', ''pubkey'']]\<rparr>)"
  by (simp add: generate_keypair_def Let_def)

lemma create_user_save_failure:
  fixes cfg e user_id name_arg s priv pub a
  defines "u \<equiv> \<lparr>uid = user_id,
                 name = (case name_arg of None \<Rightarrow> user_id | Some n \<Rightarrow> if n \<noteq> [] then n else user_id),
                 private_key = priv, public_key = pub, ip = a, allowed_ips = a @ ''/32'',
                 client_config = None\<rparr>"
  assumes "user_id \<notin> fst ` set (users s)"
    and "genkey e = Inr priv" and "pubkey e priv = Inr pub"
    and "get_next_ip cfg (used_ips s) = Inr a"
    and "returncode (awg e [''set'', INTERFACE_NAME cfg, ''peer'', pub, ''allowed-ips'', a @ ''/32'']) = 0"
    and "write_error e = Some m"
  shows "create_user cfg e user_id name_arg s =
           (Inl (OSError m),
            s\<lparr>heap := heap s @ [u],
              users := users s @ [(user_id, length (heap s))],
              used_ips := insert a (used_ips s),
              calls := calls s @ [[''awg'', ''genkey''], [''awg'', ''pubkey''],
                 [''awg'', ''set'', INTERFACE_NAME cfg, ''peer'', pub, ''allowed-ips'', a @ ''/32'']]\<rparr>)"
  using assms(2-)
  by (simp add: create_user_def generate_keypair_ok add_peer_ok save_users_def store_def
        update_absent Let_def u_def)

lemma create_user_cases:
  obtains (unchanged) xs c where
      "snd (create_user cfg e user_id name_arg s) = s\<lparr>heap := heap s @ xs, calls := c\<rparr>"
  | (added) u cc f c where
      "user_id \<notin> fst ` set (users s)" "ip u \<notin> used_ips s"
      "snd (create_user cfg e user_id name_arg s) =
         s\<lparr>heap := heap s @ [u\<lparr>client_config := cc\<rparr>],
           users := users s @ [(user_id, length (heap s))],
           used_ips := insert (ip u) (used_ips s),
           users_file := f, calls := c\<rparr>"
      "f = users_file s \<or>
       f = Some (map (\<lambda>(k, r). (k, (heap s @ [u]) ! r)) (users s) @ [(user_id, u)])"
proof (cases "user_id \<in> fst ` set (users s)")
  case True
  then have "snd (create_user cfg e user_id name_arg s) = s\<lparr>heap := heap s @ [], calls := calls s\<rparr>"
    by (simp add: create_user_def)
  then show ?thesis by (rule unchanged)
next
  case new: False
  show ?thesis
  proof (cases "genkey e")
    case (Inl m)
    then have "snd (create_user cfg e user_id name_arg s) =
        s\<lparr>heap := heap s @ [], calls := calls s @ [[''awg'', ''genkey'']]\<rparr>"
      using new by (simp add: create_user_def generate_keypair_fail1)
    then show ?thesis by (rule unchanged)
  next
    case priv: (Inr priv)
    show ?thesis
    proof (cases "pubkey e priv")
      case (Inl m)
      then have "snd (create_user cfg e user_id name_arg s) =
          s\<lparr>heap := heap s @ [], calls := calls s @ [[''awg'', ''genkey''], [''awg'', ''pubkey'']]\<rparr>"
        using new priv by (simp add: create_user_def generate_keypair_fail2)
      then show ?thesis by (rule unchanged)
    next
      case pub: (Inr pub)
      show ?thesis
      proof (cases "get_next_ip cfg (used_ips s)")
        case (Inl err)
        then have "snd (create_user cfg e user_id name_arg s) =
            s\<lparr>heap := heap s @ [], calls := calls s @ [[''awg'', ''genkey''], [''awg'', ''pubkey'']]\<rparr>"
          using new priv pub by (simp add: create_user_exhausted)
        then show ?thesis by (rule unchanged)
      next
        case a: (Inr a)
        define u where "u = \<lparr>uid = user_id,
                 name = (case name_arg of None \<Rightarrow> user_id | Some n \<Rightarrow> if n \<noteq> [] then n else user_id),
                 private_key = priv, public_key = pub, ip = a, allowed_ips = a @ ''/32'',
                 client_config = None\<rparr>"
        have free: "ip u \<notin> used_ips s"
          using a by (simp add: u_def get_next_ip_not_used)
        show ?thesis
        proof (cases "returncode (awg e [''set'', INTERFACE_NAME cfg, ''peer'', pub, ''allowed-ips'', a @ ''/32'']) = 0")
          case False
          then have "snd (create_user cfg e user_id name_arg s) =
              s\<lparr>heap := heap s @ [u],
                calls := calls s @ [[''awg'', ''genkey''], [''awg'', ''pubkey''],
                 [''awg'', ''set'', INTERFACE_NAME cfg, ''peer'', pub, ''allowed-ips'', a @ ''/32'']]\<rparr>"
            using new priv pub a
            by (simp add: create_user_def generate_keypair_ok add_peer_fail Let_def u_def)
          then show ?thesis by (rule unchanged)
        next
          case ok: True
          show ?thesis
          proof (cases "write_error e")
            case (Some m)
            from create_user_save_failure [OF new priv pub a ok Some, of name_arg]
            have "snd (create_user cfg e user_id name_arg s) =
                s\<lparr>heap := heap s @ [u\<lparr>client_config := None\<rparr>],
                  users := users s @ [(user_id, length (heap s))],
                  used_ips := insert (ip u) (used_ips s),
                  users_file := users_file s,
                  calls := calls s @ [[''awg'', ''genkey''], [''awg'', ''pubkey''],
                    [''awg'', ''set'', INTERFACE_NAME cfg, ''peer'', pub, ''allowed-ips'', a @ ''/32'']]\<rparr>"
              by (simp add: u_def)
            with new free show ?thesis by (rule added) simp
          next
            case None
            from create_user_success [OF new priv pub a ok None, of name_arg]
            have "snd (create_user cfg e user_id name_arg s) =
                s\<lparr>heap := heap s @ [u\<lparr>client_config := Some (generate_client_config cfg u)\<rparr>],
                  users := users s @ [(user_id, length (heap s))],
                  used_ips := insert (ip u) (used_ips s),
                  users_file := Some (map (\<lambda>(k, r). (k, (heap s @ [u]) ! r)) (users s) @ [(user_id, u)]),
                  calls := calls s @ [[''awg'', ''genkey''], [''awg'', ''pubkey''],
                    [''awg'', ''set'', INTERFACE_NAME cfg, ''peer'', pub, ''allowed-ips'', a @ ''/32'']]\<rparr>"
              by (simp add: u_def)
            with new free show ?thesis by (rule added) simp
          qed
        qed
      qed
    qed
  qed
qed

lemma store_append_heap:
  "refs_valid s \<Longrightarrow> map (\<lambda>(k, r). (k, (heap s @ xs) ! r)) (users s) = store s"
  by (auto simp: refs_valid_def store_def nth_append)

lemma inv_heap_append:
  assumes "state_inv s"
  shows "state_inv (s\<lparr>heap := heap s @ xs, calls := c\<rparr>)"
proof -
  from assms have v: "refs_valid s" by (simp add: state_inv_def)
  then have st: "store (s\<lparr>heap := heap s @ xs, calls := c\<rparr>) = store s"
    using store_append_heap [OF v, of xs] by (simp add: store_def)
  from v have "refs_valid (s\<lparr>heap := heap s @ xs, calls := c\<rparr>)"
    by (auto simp: refs_valid_def)
  with assms st show ?thesis
    by (simp add: state_inv_def keys_distinct_def store_ips_def)
qed

lemma inv_added:
  assumes "state_inv s" and new: "user_id \<notin> fst ` set (users s)" and free: "ip u \<notin> used_ips s"
    and f: "f = users_file s \<or>
       f = Some (map (\<lambda>(k, r). (k, (heap s @ [u]) ! r)) (users s) @ [(user_id, u)])"
  shows "state_inv (s\<lparr>heap := heap s @ [u\<lparr>client_config := cc\<rparr>],
           users := users s @ [(user_id, length (heap s))],
           used_ips := insert (ip u) (used_ips s),
           users_file := f, calls := c\<rparr>)"
    (is "state_inv ?s'")
proof -
  from assms have v: "refs_valid s" and k: "keys_distinct s" and d: "distinct (store_ips s)"
    and e: "set (store_ips s) = used_ips s" and o: "doc_ok (users_file s)"
    by (simp_all add: state_inv_def)
  have st: "store ?s' = store s @ [(user_id, u\<lparr>client_config := cc\<rparr>)]"
    using store_append_heap [OF v, of "[u\<lparr>client_config := cc\<rparr>]"] by (simp add: store_def)
  have 1: "refs_valid ?s'" using v by (auto simp: refs_valid_def)
  have 2: "keys_distinct ?s'" using k new by (simp add: keys_distinct_def)
  have ips: "store_ips ?s' = store_ips s @ [ip u]" unfolding store_ips_def st by simp
  have 3: "distinct (store_ips ?s')" using d e free by (simp add: ips)
  have 4: "set (store_ips ?s') = used_ips ?s'" using e by (simp add: ips)
  have "doc_ok (Some (store s @ [(user_id, u)]))"
    using k new d e free
    by (simp add: doc_ok_def store_keys keys_distinct_def store_ips_def)
  with f o have 5: "doc_ok (users_file ?s')"
    using store_append_heap [OF v, of "[u]"] by auto
  from 1 2 3 4 5 show ?thesis by (simp add: state_inv_def)
qed

lemma inv_create_user: "state_inv s \<Longrightarrow> state_inv (snd (create_user cfg e user_id name_arg s))"
  by (rule create_user_cases [of cfg e user_id name_arg s]) (simp_all add: inv_heap_append inv_added)

lemma delete_user_save_failure:
  assumes "map_of (users s) user_id = Some r"
    and "returncode (awg e [''set'', INTERFACE_NAME cfg, ''peer'', public_key (heap s ! r), ''remove'']) = 0"
    and "write_error e = Some m"
  shows "delete_user cfg e user_id s =
           (Inl (OSError m),
            s\<lparr>used_ips := used_ips s - {ip (heap s ! r)},
              users := AList.delete user_id (users s),
              calls := calls s @
                [[''awg'', ''set'', INTERFACE_NAME cfg, ''peer'', public_key (heap s ! r), ''remove'']]\<rparr>)"
  using assms
  by (simp add: delete_user_def remove_peer_ok save_users_def store_def Let_def)

lemma delete_user_cases:
  obtains (unchanged) c where "snd (delete_user cfg e user_id s) = s\<lparr>calls := c\<rparr>"
  | (removed) r f c where
      "map_of (users s) user_id = Some r"
      "snd (delete_user cfg e user_id s) =
         s\<lparr>used_ips := used_ips s - {ip (heap s ! r)},
           users := AList.delete user_id (users s),
           users_file := f, calls := c\<rparr>"
      "f = users_file s \<or>
       f = Some (map (\<lambda>(k, r). (k, heap s ! r)) (AList.delete user_id (users s)))"
proof (cases "map_of (users s) user_id")
  case None
  then have "snd (delete_user cfg e user_id s) = s\<lparr>calls := calls s\<rparr>"
    by (simp add: delete_user_def)
  then show ?thesis by (rule unchanged)
next
  case (Some r)
  show ?thesis
  proof (cases "returncode (awg e [''set'', INTERFACE_NAME cfg, ''peer'', public_key (heap s ! r), ''remove'']) = 0")
    case False
    with Some have "snd (delete_user cfg e user_id s) =
        s\<lparr>calls := calls s @
           [[''awg'', ''set'', INTERFACE_NAME cfg, ''peer'', public_key (heap s ! r), ''remove'']]\<rparr>"
      by (simp add: delete_user_def remove_peer_fail)
    then show ?thesis by (rule unchanged)
  next
    case ok: True
    show ?thesis
    proof (cases "write_error e")
      case (Some m)
      from delete_user_save_failure [OF \<open>map_of (users s) user_id = Some r\<close> ok Some]
      have "snd (delete_user cfg e user_id s) =
          s\<lparr>used_ips := used_ips s - {ip (heap s ! r)},
            users := AList.delete user_id (users s),
            users_file := users_file s,
            calls := calls s @
              [[''awg'', ''set'', INTERFACE_NAME cfg, ''peer'', public_key (heap s ! r), ''remove'']]\<rparr>"
        by simp
      with \<open>map_of (users s) user_id = Some r\<close> show ?thesis by (rule removed) simp
    next
      case None
      from delete_user_success [OF \<open>map_of (users s) user_id = Some r\<close> ok None]
      have "snd (delete_user cfg e user_id s) =
          s\<lparr>used_ips := used_ips s - {ip (heap s ! r)},
            users := AList.delete user_id (users s),
            users_file := Some (map (\<lambda>(k, r). (k, heap s ! r)) (AList.delete user_id (users s))),
            calls := calls s @
              [[''awg'', ''set'', INTERFACE_NAME cfg, ''peer'', public_key (heap s ! r), ''remove'']]\<rparr>"
        by simp
      with \<open>map_of (users s) user_id = Some r\<close> show ?thesis by (rule removed) simp
    qed
  qed
qed

lemma set_map_filter_key:
  "distinct (map fst xs) \<Longrightarrow> distinct (map g xs) \<Longrightarrow> map_of xs k = Some v \<Longrightarrow>
   set (map g (filter (\<lambda>p. fst p \<noteq> k) xs)) = set (map g xs) - {g (k, v)}"
proof (induction xs)
  case Nil
  then show ?case by simp
next
  case (Cons p xs)
  show ?case
  proof (cases "fst p = k")
    case True
    with Cons.prems have p: "p = (k, v)" by (cases p) auto
    from True Cons.prems have "k \<notin> fst ` set xs" by auto
    then have "filter (\<lambda>p. fst p \<noteq> k) xs = xs" by (auto simp: filter_id_conv)
    moreover from Cons.prems have "g p \<notin> set (map g xs)" by simp
    ultimately show ?thesis using True p by auto
  next
    case False
    with Cons.prems have m: "map_of xs k = Some v" by (cases p) auto
    then have "(k, v) \<in> set xs" by (rule map_of_SomeD)
    with Cons.prems have "g p \<noteq> g (k, v)" by auto
    moreover from Cons.prems m
    have "set (map g (filter (\<lambda>p. fst p \<noteq> k) xs)) = set (map g xs) - {g (k, v)}"
      by (intro Cons.IH) auto
    ultimately show ?thesis using False by auto
  qed
qed

lemma delete_filter: "AList.delete k xs = filter (\<lambda>p. fst p \<noteq> k) xs"
  by (induction xs) auto

lemma inv_removed:
  assumes "state_inv s" and m: "map_of (users s) user_id = Some r"
    and f: "f = users_file s \<or>
       f = Some (map (\<lambda>(k, r). (k, heap s ! r)) (AList.delete user_id (users s)))"
  shows "state_inv (s\<lparr>used_ips := used_ips s - {ip (heap s ! r)},
           users := AList.delete user_id (users s),
           users_file := f, calls := c\<rparr>)"
    (is "state_inv ?s'")
proof -
  from assms have v: "refs_valid s" and k: "keys_distinct s" and d: "distinct (store_ips s)"
    and e: "set (store_ips s) = used_ips s" and o: "doc_ok (users_file s)"
    by (simp_all add: state_inv_def)
  have st: "store ?s' = filter (\<lambda>p. fst p \<noteq> user_id) (store s)"
    by (simp add: store_def delete_filter filter_map comp_def split_def)
  have 1: "refs_valid ?s'" using v by (auto simp: refs_valid_def delete_filter)
  have kd: "distinct (map fst (filter (\<lambda>p. fst p \<noteq> user_id) (store s)))"
    using k by (simp add: keys_distinct_def store_keys [symmetric] distinct_map_filter)
  have 2: "keys_distinct ?s'"
    using k by (simp add: keys_distinct_def AList.distinct_delete)
  have 3: "distinct (store_ips ?s')"
    unfolding store_ips_def st using d by (simp add: store_ips_def distinct_map_filter)
  have "map_of (store s) user_id = Some (heap s ! r)" using m by (simp add: map_of_store)
  with k d have "set (map (\<lambda>(k, u). ip u) (filter (\<lambda>p. fst p \<noteq> user_id) (store s))) =
      set (map (\<lambda>(k, u). ip u) (store s)) - {ip (heap s ! r)}"
    using set_map_filter_key [of "store s" "\<lambda>(k, u). ip u" user_id "heap s ! r"]
    by (simp add: keys_distinct_def store_keys store_ips_def)
  then have 4: "set (store_ips ?s') = used_ips ?s'"
    unfolding store_ips_def st using e by (simp add: store_ips_def)
  have "doc_ok (Some (store ?s'))"
    using kd 3 unfolding store_ips_def st by (simp add: doc_ok_def)
  then have "doc_ok (Some (map (\<lambda>(k, r). (k, heap s ! r)) (AList.delete user_id (users s))))"
    by (simp add: store_def)
  with f o have 5: "doc_ok (users_file ?s')" by auto
  from 1 2 3 4 5 show ?thesis by (simp add: state_inv_def)
qed

lemma inv_calls: "state_inv s \<Longrightarrow> state_inv (s\<lparr>calls := c\<rparr>)"
  by (simp add: state_inv_def refs_valid_def keys_distinct_def store_ips_def)

lemma inv_delete_user: "state_inv s \<Longrightarrow> state_inv (snd (delete_user cfg e user_id s))"
  by (rule delete_user_cases [of cfg e user_id s]) (simp_all add: inv_calls inv_removed)

lemma inv_get_user:
  assumes "state_inv s"
  shows "state_inv (snd (get_user cfg user_id s))"
proof (cases "map_of (users s) user_id")
  case None
  with assms show ?thesis by (simp add: get_user_def)
next
  case (Some r)
  then have "snd (get_user cfg user_id s) =
      s\<lparr>heap := heap s @ [(heap s ! r)\<lparr>client_config := Some (generate_client_config cfg (heap s ! r))\<rparr>],
        calls := calls s\<rparr>"
    by (simp add: get_user_def Let_def)
  moreover have "state_inv (s\<lparr>heap := heap s @ [(heap s ! r)\<lparr>client_config := Some (generate_client_config cfg (heap s ! r))\<rparr>],
        calls := calls s\<rparr>)"
    using assms by (rule inv_heap_append)
  ultimately show ?thesis by (simp only:)
qed

lemma inv_list_users: "state_inv s \<Longrightarrow> state_inv (snd (list_users s))"
  by (simp add: list_users_def)

lemma inv_get_server_status: "state_inv s \<Longrightarrow> state_inv (snd (get_server_status cfg e s))"
  by (simp add: get_server_status_def run_awg_command_def Let_def inv_calls)

lemma zip_index:
  "map (\<lambda>(k, r). (k, map snd doc ! r)) (zip (map fst doc) [0..<length doc]) = doc"
  by (rule nth_equalityI) simp_all

lemma store_init: "store (init file cs) = load_users file"
  by (simp add: store_def init_def Let_def zip_index)

lemma inv_init: "doc_ok file \<Longrightarrow> state_inv (init file cs)"
proof -
  assume ok: "doc_ok file"
  have 1: "refs_valid (init file cs)"
    by (auto simp: refs_valid_def init_def Let_def dest!: set_zip_rightD)
  have keys: "map fst (users (init file cs)) = map fst (load_users file)"
    by (simp add: init_def Let_def)
  have ips: "used_ips (init file cs) = set (map (\<lambda>(k, u). ip u) (load_users file))"
    by (simp add: init_def Let_def split_def comp_def)
  from ok have "distinct (map fst (load_users file)) \<and> distinct (map (\<lambda>(k, u). ip u) (load_users file))"
    by (simp add: doc_ok_def load_users_def split: option.splits)
  with 1 keys ips ok show ?thesis
    by (simp add: state_inv_def keys_distinct_def store_ips_def store_init) (simp add: init_def Let_def)
qed

lemma reachable_inv: "reachable cfg s \<Longrightarrow> state_inv s"
proof (induction rule: reachable.induct)
  case (start cs)
  show ?case by (rule inv_init) (simp add: doc_ok_def)
next
  case (restart s)
  then show ?case by (intro inv_init) (simp add: state_inv_def)
qed (simp_all add: inv_create_user inv_delete_user inv_get_user inv_list_users inv_get_server_status)

text \<open>
  C2. In every reachable state (any sequence of operations, successful or failed, with
  restarts from the written document) the \<^verbatim>\<open>ip\<close> values of the stored users are
  pairwise different and, as a set, are the used set.
\<close>

theorem reachable_ips_distinct_and_used:
  assumes "reachable cfg s"
  shows "distinct (store_ips s) \<and> set (store_ips s) = used_ips s"
  using reachable_inv [OF assms] by (simp add: state_inv_def)

theorem reachable_ips_distinct_and_used_witness:
  "reachable example_config state_bcd \<and>
   store_ips state_bcd = [''10.8.0.3'', ''10.8.0.4'', ''10.8.0.2''] \<and>
   distinct (store_ips state_bcd) \<and>
   set (store_ips state_bcd) = used_ips state_bcd"
proof -
  have r: "reachable example_config state_bcd"
    unfolding state_bcd_def state_bc_def state_abc_def state_ab_def state_a_def
    by (intro reachable.create reachable.delete reachable.start)
  have "store_ips state_bcd = [''10.8.0.3'', ''10.8.0.4'', ''10.8.0.2'']"
    using nth_of_map_eq [OF state_bcd_fields(3)]
    by (simp add: store_ips_eq state_bcd_fields(1))
  with r reachable_ips_distinct_and_used [OF r] show ?thesis by simp
qed

section \<open>The persisted records\<close>

lemma state_ab_users_file:
  "users_file state_ab =
     Some [(''a'', heap state_a ! 0),
           (''b'', \<lparr>uid = ''b'', name = ''b'', private_key = ''cHJpdmF0ZQ'',
                   public_key = ''pub-cHJpdmF0ZQ'', ip = ''10.8.0.3'', allowed_ips = ''10.8.0.3/32'',
                   client_config = None\<rparr>)]"
proof -
  have n: "get_next_ip example_config (used_ips state_a) = Inr ''10.8.0.3''"
    by (simp add: state_a_eq next_ip_example_1)
  have new: "''b'' \<notin> fst ` set (users state_a)" by (simp add: state_a_eq)
  have u: "users state_a = [(''a'', 0)]" by (simp add: state_a_eq)
  have l: "length (heap state_a) = 1" by (simp add: state_a_eq)
  from create_user_success [OF new example_env_simps(1,2) n example_env_simps(3,4),
      where name_arg = None]
  show ?thesis
    by (simp add: state_ab_def u l nth_append)
qed

text \<open>
  C6. The document written by the first \<^verbatim>\<open>create_user\<close> has the six keys for the new
  user. The dict that was written is then given a \<^verbatim>\<open>client_config\<close> key through the
  reference the store shares with the result, so the document written by the next
  mutation has a seventh key for the earlier user.
\<close>

theorem persisted_record_gains_client_config:
  "map (\<lambda>(k, u). (k, client_config u = None)) (the (users_file state_a)) = [(''a'', True)] \<and>
   map (\<lambda>(k, u). (k, client_config u = None)) (the (users_file state_ab)) =
     [(''a'', False), (''b'', True)] \<and>
   fst (create_user example_config example_env ''a'' None (init None [])) = Inr 0 \<and>
   fst (create_user example_config example_env ''b'' None state_a) = Inr 1"
proof -
  have n: "get_next_ip example_config (used_ips state_a) = Inr ''10.8.0.3''"
    by (simp add: state_a_eq next_ip_example_1)
  have new: "''b'' \<notin> fst ` set (users state_a)" by (simp add: state_a_eq)
  have l: "length (heap state_a) = 1" by (simp add: state_a_eq)
  have b: "fst (create_user example_config example_env ''b'' None state_a) = Inr 1"
    using create_user_success [OF new example_env_simps(1,2) n example_env_simps(3,4),
      where name_arg = None]
    by (simp add: l)
  have n0: "get_next_ip example_config (used_ips (init None [])) = Inr ''10.8.0.2''"
    by (simp add: init_None next_ip_example_0)
  have new0: "''a'' \<notin> fst ` set (users (init None []))" by (simp add: init_None)
  have a: "fst (create_user example_config example_env ''a'' None (init None [])) = Inr 0"
    using create_user_success [OF new0 example_env_simps(1,2) n0 example_env_simps(3,4),
      where name_arg = None]
    by (simp add: init_None)
  have c: "client_config (heap state_a ! 0) \<noteq> None" by (simp add: state_a_eq)
  have f: "map (\<lambda>(k, u). (k, client_config u = None)) (the (users_file state_a)) = [(''a'', True)]"
    by (simp add: state_a_eq)
  from a b c f show ?thesis by (simp add: state_ab_users_file)
qed

section \<open>The layout of the client configuration\<close>

lemma join_lines_Cons:
  "join_lines (l # ls) = l @ concat (map (\<lambda>l. CHR ''\<newline>'' # l) ls)"
  by (induction ls arbitrary: l) simp_all

lemma if_append_right: "(if b then c @ x else c) = c @ (if b then x else [])"
  by simp

lemma generate_client_config_lines:
  "generate_client_config cfg user = join_lines (render_lines cfg user)"
proof -
  have opt: "concat (map (\<lambda>l. CHR ''\<newline>'' # l) (optional_lines cfg)) =
      (if H1 cfg \<noteq> [] then ''\<newline>H1 = '' @ H1 cfg else []) @
      (if H2 cfg \<noteq> [] then ''\<newline>H2 = '' @ H2 cfg else []) @
      (if H3 cfg \<noteq> [] then ''\<newline>H3 = '' @ H3 cfg else []) @
      (if H4 cfg \<noteq> [] then ''\<newline>H4 = '' @ H4 cfg else []) @
      (if I1 cfg \<noteq> [] then ''\<newline>I1 = '' @ I1 cfg else []) @
      (if I2 cfg \<noteq> [] then ''\<newline>I2 = '' @ I2 cfg else []) @
      (if I3 cfg \<noteq> [] then ''\<newline>I3 = '' @ I3 cfg else []) @
      (if I4 cfg \<noteq> [] then ''\<newline>I4 = '' @ I4 cfg else []) @
      (if I5 cfg \<noteq> [] then ''\<newline>I5 = '' @ I5 cfg else [])"
    by (simp add: optional_lines_def optional_fields_def field_line_def)
  have src: "generate_client_config cfg user =
      join_lines (interface_lines cfg user @ obfuscation_lines cfg) @
      concat (map (\<lambda>l. CHR ''\<newline>'' # l) (optional_lines cfg)) @
      concat (map (\<lambda>l. CHR ''\<newline>'' # l) (peer_lines cfg))"
    unfolding opt generate_client_config_def Let_def if_append_right
    by (simp add: interface_lines_def obfuscation_lines_def peer_lines_def split del: if_split)
  have "render_lines cfg user =
      hd (interface_lines cfg user) #
      (tl (interface_lines cfg user) @ obfuscation_lines cfg @ optional_lines cfg @ peer_lines cfg)"
    by (simp add: render_lines_def interface_lines_def)
  then have "join_lines (render_lines cfg user) =
      join_lines (hd (interface_lines cfg user) # tl (interface_lines cfg user) @ obfuscation_lines cfg) @
      concat (map (\<lambda>l. CHR ''\<newline>'' # l) (optional_lines cfg)) @
      concat (map (\<lambda>l. CHR ''\<newline>'' # l) (peer_lines cfg))"
    by (simp only: join_lines_Cons map_append concat_append append_assoc)
  with src show ?thesis by (simp add: interface_lines_def)
qed

lemma split_lines_single: "CHR ''\<newline>'' \<notin> set l \<Longrightarrow> split_lines l = [l]"
  by (induction l) auto

lemma split_lines_line:
  "CHR ''\<newline>'' \<notin> set l \<Longrightarrow> split_lines (l @ CHR ''\<newline>'' # s) = l # split_lines s"
  by (induction l) auto

lemma split_join_lines:
  "ls \<noteq> [] \<Longrightarrow> \<forall>l\<in>set ls. CHR ''\<newline>'' \<notin> set l \<Longrightarrow> split_lines (join_lines ls) = ls"
proof (induction ls rule: join_lines.induct)
  case 1
  then show ?case by simp
next
  case (2 l)
  then show ?case by (simp add: split_lines_single)
next
  case (3 l v va)
  then show ?case by (simp add: split_lines_line)
qed

lemma str_nat_digits: "set (str_nat n) \<subseteq> set ''0123456789''"
proof (induction n rule: str_nat.induct)
  case (1 n)
  have d: "digit k \<in> set ''0123456789''" if "k < 10" for k
  proof -
    from that have "k \<in> {0, 1, 2, 3, 4, 5, 6, 7, 8, 9}" by auto
    then show ?thesis by (auto simp: digit_def)
  qed
  show ?case
  proof (cases "n < 10")
    case True
    then show ?thesis using d [of n] by (subst str_nat.simps) simp
  next
    case False
    with 1 have "set (str_nat (n div 10)) \<subseteq> set ''0123456789''" by simp
    moreover have "digit (n mod 10) \<in> set ''0123456789''" by (rule d) simp
    ultimately show ?thesis using False by (subst str_nat.simps) simp
  qed
qed

lemma str_int_single_line: "CHR ''\<newline>'' \<notin> set (str_int i)"
  using str_nat_digits [of "nat i"] str_nat_digits [of "nat (- i)"]
  by (auto simp: str_int_def)

lemma render_lines_single:
  assumes "single_line_values cfg user"
  shows "\<forall>l\<in>set (render_lines cfg user). CHR ''\<newline>'' \<notin> set l"
proof -
  have "set (optional_lines cfg) \<subseteq> field_line ` set (optional_fields cfg)"
    by (auto simp: optional_lines_def)
  moreover have "\<forall>l \<in> field_line ` set (optional_fields cfg). CHR ''\<newline>'' \<notin> set l"
    using assms by (simp add: single_line_values_def optional_fields_def field_line_def)
  ultimately have "\<forall>l\<in>set (optional_lines cfg). CHR ''\<newline>'' \<notin> set l" by blast
  moreover have "\<forall>l\<in>set (interface_lines cfg user). CHR ''\<newline>'' \<notin> set l"
    using assms by (simp add: single_line_values_def interface_lines_def cjk_comment_def)
  moreover have "\<forall>l\<in>set (obfuscation_lines cfg). CHR ''\<newline>'' \<notin> set l"
    by (simp add: obfuscation_lines_def str_int_single_line)
  moreover have "\<forall>l\<in>set (peer_lines cfg). CHR ''\<newline>'' \<notin> set l"
    using assms by (simp add: single_line_values_def peer_lines_def str_int_single_line)
  ultimately show ?thesis by (auto simp: render_lines_def)
qed

lemma field_lines_subset: "set (map field_line (filter P kvs)) \<subseteq> field_line ` set kvs"
  by auto

lemma optional_lines_abcd:
  assumes "H1 cfg = []" and "I3 cfg = ''abcd''"
  shows "optional_lines cfg =
           map field_line (filter (\<lambda>kv. snd kv \<noteq> [])
             [(''H2'', H2 cfg), (''H3'', H3 cfg), (''H4'', H4 cfg), (''I1'', I1 cfg), (''I2'', I2 cfg)]) @
           [''I3 = abcd''] @
           map field_line (filter (\<lambda>kv. snd kv \<noteq> []) [(''I4'', I4 cfg), (''I5'', I5 cfg)])"
  using assms by (simp add: optional_lines_def optional_fields_def field_line_def)

lemma no_H1_line:
  assumes "H1 cfg = []"
  shows "\<forall>l\<in>set (render_lines cfg user). \<not> prefix ''H1'' l"
proof -
  have "optional_lines cfg = map field_line (filter (\<lambda>kv. snd kv \<noteq> []) (tl (optional_fields cfg)))"
    using assms by (simp add: optional_lines_def optional_fields_def)
  then have "set (optional_lines cfg) \<subseteq> field_line ` set (tl (optional_fields cfg))"
    using field_lines_subset by metis
  moreover have "\<forall>l \<in> field_line ` set (tl (optional_fields cfg)). \<not> prefix ''H1'' l"
    by (simp add: optional_fields_def field_line_def)
  ultimately have "\<forall>l\<in>set (optional_lines cfg). \<not> prefix ''H1'' l" by blast
  moreover have "\<forall>l\<in>set (interface_lines cfg user). \<not> prefix ''H1'' l"
    by (simp add: interface_lines_def)
  moreover have "\<forall>l\<in>set (obfuscation_lines cfg). \<not> prefix ''H1'' l"
    by (simp add: obfuscation_lines_def)
  moreover have "\<forall>l\<in>set (peer_lines cfg). \<not> prefix ''H1'' l"
    by (simp add: peer_lines_def)
  ultimately show ?thesis by (auto simp: render_lines_def)
qed

lemma one_I3_line:
  assumes "H1 cfg = []" and "I3 cfg = ''abcd''"
  shows "count_list (render_lines cfg user) ''I3 = abcd'' = 1"
proof -
  have a: "''I3 = abcd'' \<notin> set (map field_line (filter (\<lambda>kv. snd kv \<noteq> [])
             [(''H2'', H2 cfg), (''H3'', H3 cfg), (''H4'', H4 cfg), (''I1'', I1 cfg), (''I2'', I2 cfg)]))"
    using field_lines_subset [of "\<lambda>kv. snd kv \<noteq> []"
        "[(''H2'', H2 cfg), (''H3'', H3 cfg), (''H4'', H4 cfg), (''I1'', I1 cfg), (''I2'', I2 cfg)]"]
    by (auto simp: field_line_def)
  have b: "''I3 = abcd'' \<notin> set (map field_line (filter (\<lambda>kv. snd kv \<noteq> [])
             [(''I4'', I4 cfg), (''I5'', I5 cfg)]))"
    using field_lines_subset [of "\<lambda>kv. snd kv \<noteq> []" "[(''I4'', I4 cfg), (''I5'', I5 cfg)]"]
    by (auto simp: field_line_def)
  have c: "count_list (interface_lines cfg user) ''I3 = abcd'' = 0"
    by (simp add: interface_lines_def)
  have d: "count_list (obfuscation_lines cfg) ''I3 = abcd'' = 0"
    by (simp add: obfuscation_lines_def)
  have e: "count_list (peer_lines cfg) ''I3 = abcd'' = 0"
    by (simp add: peer_lines_def)
  from a b have "count_list (optional_lines cfg) ''I3 = abcd'' = 1"
    unfolding optional_lines_abcd [OF assms] by (simp del: set_map)
  with c d e show ?thesis by (simp add: render_lines_def)
qed

lemma split_lines_not_Nil: "split_lines s \<noteq> []"
  by (induction s) (auto split: list.splits)

lemma split_lines_append:
  "split_lines (l @ CHR ''\<newline>'' # s) = split_lines l @ split_lines s"
proof (induction l)
  case Nil
  then show ?case by simp
next
  case (Cons c l)
  then show ?case using split_lines_not_Nil [of l] by (cases "split_lines l") auto
qed

lemma split_join_concat:
  "ls \<noteq> [] \<Longrightarrow> split_lines (join_lines ls) = concat (map split_lines ls)"
proof (induction ls rule: join_lines.induct)
  case 1
  then show ?case by simp
next
  case (2 l)
  then show ?case by simp
next
  case (3 l v va)
  then show ?case by (simp add: split_lines_append)
qed

lemma str_int_examples:
  "str_int 6 = ''6''" "str_int 50 = ''50''" "str_int 1000 = ''1000''" "str_int 0 = ''0''"
  "str_int 51820 = ''51820''"
  by (simp_all add: str_int_def str_nat.simps digit_def)

text \<open>
  C7, for values without line feed. When no value copied into the text contains a line feed, the lines of
  the rendered client configuration are the interface section, the seven parameters
  \<^verbatim>\<open>Jc\<close>, \<^verbatim>\<open>Jmin\<close>, \<^verbatim>\<open>Jmax\<close>, \<^verbatim>\<open>S1\<close> to \<^verbatim>\<open>S4\<close>, then one line per optional field
  whose value is not empty, in the order H1 to H4, I1 to I5, then the peer section,
  which has \<^verbatim>\<open>AllowedIPs = 0.0.0.0/0\<close> and \<^verbatim>\<open>PersistentKeepalive = 25\<close>. With H1 empty
  and I3 set to \<^verbatim>\<open>abcd\<close>, no line of the text starts with \<^verbatim>\<open>H1\<close>, and exactly one
  line of the text is \<^verbatim>\<open>I3 = abcd\<close>; it stands after the S lines and the H lines.
\<close>

theorem client_config_layout:
  "single_line_values cfg user \<Longrightarrow>
   split_lines (generate_client_config cfg user) =
     interface_lines cfg user @ obfuscation_lines cfg @ optional_lines cfg @ peer_lines cfg \<and>
   optional_lines cfg =
     map field_line (filter (\<lambda>kv. snd kv \<noteq> [])
       [(''H1'', H1 cfg), (''H2'', H2 cfg), (''H3'', H3 cfg), (''H4'', H4 cfg),
        (''I1'', I1 cfg), (''I2'', I2 cfg), (''I3'', I3 cfg), (''I4'', I4 cfg), (''I5'', I5 cfg)]) \<and>
   drop 4 (peer_lines cfg) = [''AllowedIPs = 0.0.0.0/0'', ''PersistentKeepalive = 25'', []] \<and>
   (H1 cfg = [] \<and> I3 cfg = ''abcd'' \<longrightarrow>
      split_lines (generate_client_config cfg user) =
        interface_lines cfg user @ obfuscation_lines cfg @
        map field_line (filter (\<lambda>kv. snd kv \<noteq> [])
          [(''H2'', H2 cfg), (''H3'', H3 cfg), (''H4'', H4 cfg), (''I1'', I1 cfg), (''I2'', I2 cfg)]) @
        [''I3 = abcd''] @
        map field_line (filter (\<lambda>kv. snd kv \<noteq> []) [(''I4'', I4 cfg), (''I5'', I5 cfg)]) @
        peer_lines cfg \<and>
      (\<forall>l\<in>set (split_lines (generate_client_config cfg user)). \<not> prefix ''H1'' l) \<and>
      count_list (split_lines (generate_client_config cfg user)) ''I3 = abcd'' = 1)"
proof -
  assume single: "single_line_values cfg user"
  have "render_lines cfg user \<noteq> []" by (simp add: render_lines_def interface_lines_def)
  then have "split_lines (join_lines (render_lines cfg user)) = render_lines cfg user"
    using render_lines_single [OF single] by (rule split_join_lines)
  then have sp: "split_lines (generate_client_config cfg user) = render_lines cfg user"
    by (simp only: generate_client_config_lines)
  have 1: "split_lines (generate_client_config cfg user) =
     interface_lines cfg user @ obfuscation_lines cfg @ optional_lines cfg @ peer_lines cfg"
    using sp by (simp only: render_lines_def)
  have 2: "optional_lines cfg =
     map field_line (filter (\<lambda>kv. snd kv \<noteq> [])
       [(''H1'', H1 cfg), (''H2'', H2 cfg), (''H3'', H3 cfg), (''H4'', H4 cfg),
        (''I1'', I1 cfg), (''I2'', I2 cfg), (''I3'', I3 cfg), (''I4'', I4 cfg), (''I5'', I5 cfg)])"
    by (simp only: optional_lines_def optional_fields_def)
  have 3: "drop 4 (peer_lines cfg) = [''AllowedIPs = 0.0.0.0/0'', ''PersistentKeepalive = 25'', []]"
    by (simp add: peer_lines_def)
  have 4: "split_lines (generate_client_config cfg user) =
        interface_lines cfg user @ obfuscation_lines cfg @
        map field_line (filter (\<lambda>kv. snd kv \<noteq> [])
          [(''H2'', H2 cfg), (''H3'', H3 cfg), (''H4'', H4 cfg), (''I1'', I1 cfg), (''I2'', I2 cfg)]) @
        [''I3 = abcd''] @
        map field_line (filter (\<lambda>kv. snd kv \<noteq> []) [(''I4'', I4 cfg), (''I5'', I5 cfg)]) @
        peer_lines cfg"
    if "H1 cfg = []" "I3 cfg = ''abcd''"
    unfolding 1 optional_lines_abcd [OF that] by (simp only: append_assoc)
  have 5: "\<forall>l\<in>set (split_lines (generate_client_config cfg user)). \<not> prefix ''H1'' l"
    if "H1 cfg = []"
    unfolding sp using that by (rule no_H1_line)
  have 6: "count_list (split_lines (generate_client_config cfg user)) ''I3 = abcd'' = 1"
    if "H1 cfg = []" "I3 cfg = ''abcd''"
    unfolding sp using that by (rule one_I3_line)
  from 1 2 3 4 5 6 show ?thesis by blast
qed

theorem client_config_layout_witness:
  "H1 abcd_config = [] \<and> I3 abcd_config = ''abcd'' \<and> single_line_values abcd_config example_user \<and>
   optional_lines abcd_config = [''I3 = abcd''] \<and>
   count_list (split_lines (generate_client_config abcd_config example_user)) ''I3 = abcd'' = 1 \<and>
   split_lines (generate_client_config abcd_config example_user) =
     [''[Interface]'', ''PrivateKey = cHJpdmF0ZQ'', ''Address = 10.8.0.2/32'', ''DNS = 1.1.1.1'', [],
      ''# '' @ cjk_comment @ '' (Obfuscation parameters)'',
      ''# obfJunkMinCnt -> Jc, obfJunkMin -> Jmin, obfJunkVar -> Jmax-Jmin'',
      ''# obfCtlPadLen -> S1, obfTrPadLen -> S4'',
      ''Jc = 6'', ''Jmin = 50'', ''Jmax = 1000'', ''S1 = 0'', ''S2 = 0'', ''S3 = 0'', ''S4 = 0'',
      ''I3 = abcd'',
      [], ''[Peer]'', ''PublicKey = '', ''Endpoint = 0.0.0.0:51820'', ''AllowedIPs = 0.0.0.0/0'',
      ''PersistentKeepalive = 25'', []]"
proof -
  have h: "H1 abcd_config = []" "I3 abcd_config = ''abcd''"
    by (simp_all add: abcd_config_def example_config_def)
  have s: "single_line_values abcd_config example_user"
    by (simp add: single_line_values_def optional_fields_def abcd_config_def example_config_def
        example_user_def)
  note t = client_config_layout [OF s]
  have o: "optional_lines abcd_config = [''I3 = abcd'']"
    by (simp add: optional_lines_def optional_fields_def field_line_def abcd_config_def
        example_config_def)
  from t have sp: "split_lines (generate_client_config abcd_config example_user) =
      interface_lines abcd_config example_user @ obfuscation_lines abcd_config @
      optional_lines abcd_config @ peer_lines abcd_config"
    by blast
  from t h have c: "count_list (split_lines (generate_client_config abcd_config example_user)) ''I3 = abcd'' = 1"
    by blast
  have "interface_lines abcd_config example_user @ obfuscation_lines abcd_config @
      optional_lines abcd_config @ peer_lines abcd_config =
     [''[Interface]'', ''PrivateKey = cHJpdmF0ZQ'', ''Address = 10.8.0.2/32'', ''DNS = 1.1.1.1'', [],
      ''# '' @ cjk_comment @ '' (Obfuscation parameters)'',
      ''# obfJunkMinCnt -> Jc, obfJunkMin -> Jmin, obfJunkVar -> Jmax-Jmin'',
      ''# obfCtlPadLen -> S1, obfTrPadLen -> S4'',
      ''Jc = 6'', ''Jmin = 50'', ''Jmax = 1000'', ''S1 = 0'', ''S2 = 0'', ''S3 = 0'', ''S4 = 0'',
      ''I3 = abcd'',
      [], ''[Peer]'', ''PublicKey = '', ''Endpoint = 0.0.0.0:51820'', ''AllowedIPs = 0.0.0.0/0'',
      ''PersistentKeepalive = 25'', []]"
    unfolding o
    by (simp add: interface_lines_def obfuscation_lines_def peer_lines_def abcd_config_def
        example_config_def example_user_def str_int_examples)
  with sp h s o c show ?thesis by simp
qed

lemma multiline_render_lines:
  "render_lines multiline_config example_user =
     [''[Interface]'', ''PrivateKey = cHJpdmF0ZQ'', ''Address = 10.8.0.2/32'', ''DNS = 1.1.1.1'', [],
      ''# '' @ cjk_comment @ '' (Obfuscation parameters)'',
      ''# obfJunkMinCnt -> Jc, obfJunkMin -> Jmin, obfJunkVar -> Jmax-Jmin'',
      ''# obfCtlPadLen -> S1, obfTrPadLen -> S4'',
      ''Jc = 6'', ''Jmin = 50'', ''Jmax = 1000'', ''S1 = 0'', ''S2 = 0'', ''S3 = 0'', ''S4 = 0'',
      ''I3 = abcd'', ''I5 = x\<newline>I3 = abcd'',
      [], ''[Peer]'', ''PublicKey = k\<newline>H1 = 1'', ''Endpoint = 0.0.0.0:51820'',
      ''AllowedIPs = 0.0.0.0/0'', ''PersistentKeepalive = 25'', []]"
  by (simp add: render_lines_def interface_lines_def obfuscation_lines_def peer_lines_def
      optional_lines_def optional_fields_def field_line_def multiline_config_def
      example_config_def example_user_def str_int_examples)

text \<open>
  C7 as the specification words it, for every configuration, fails: the values are
  copied into the text unchanged, so a value that holds a line feed adds lines of its
  own. With \<open>multiline_config\<close>, where H1 is empty and I3 is \<^verbatim>\<open>abcd\<close>, the text has the
  line \<^verbatim>\<open>H1 = 1\<close> and has the line \<^verbatim>\<open>I3 = abcd\<close> twice.
\<close>

theorem client_config_layout_counterexample:
  "H1 multiline_config = [] \<and> I3 multiline_config = ''abcd'' \<and>
   split_lines (generate_client_config multiline_config example_user) =
     [''[Interface]'', ''PrivateKey = cHJpdmF0ZQ'', ''Address = 10.8.0.2/32'', ''DNS = 1.1.1.1'', [],
      ''# '' @ cjk_comment @ '' (Obfuscation parameters)'',
      ''# obfJunkMinCnt -> Jc, obfJunkMin -> Jmin, obfJunkVar -> Jmax-Jmin'',
      ''# obfCtlPadLen -> S1, obfTrPadLen -> S4'',
      ''Jc = 6'', ''Jmin = 50'', ''Jmax = 1000'', ''S1 = 0'', ''S2 = 0'', ''S3 = 0'', ''S4 = 0'',
      ''I3 = abcd'', ''I5 = x'', ''I3 = abcd'',
      [], ''[Peer]'', ''PublicKey = k'', ''H1 = 1'', ''Endpoint = 0.0.0.0:51820'',
      ''AllowedIPs = 0.0.0.0/0'', ''PersistentKeepalive = 25'', []] \<and>
   ''H1 = 1'' \<in> set (split_lines (generate_client_config multiline_config example_user)) \<and>
   count_list (split_lines (generate_client_config multiline_config example_user)) ''I3 = abcd'' = 2"
proof -
  have h: "H1 multiline_config = []" "I3 multiline_config = ''abcd''"
    by (simp_all add: multiline_config_def example_config_def)
  have "split_lines (generate_client_config multiline_config example_user) =
      concat (map split_lines (render_lines multiline_config example_user))"
    unfolding generate_client_config_lines
    by (rule split_join_concat) (simp add: multiline_render_lines)
  then have l: "split_lines (generate_client_config multiline_config example_user) =
     [''[Interface]'', ''PrivateKey = cHJpdmF0ZQ'', ''Address = 10.8.0.2/32'', ''DNS = 1.1.1.1'', [],
      ''# '' @ cjk_comment @ '' (Obfuscation parameters)'',
      ''# obfJunkMinCnt -> Jc, obfJunkMin -> Jmin, obfJunkVar -> Jmax-Jmin'',
      ''# obfCtlPadLen -> S1, obfTrPadLen -> S4'',
      ''Jc = 6'', ''Jmin = 50'', ''Jmax = 1000'', ''S1 = 0'', ''S2 = 0'', ''S3 = 0'', ''S4 = 0'',
      ''I3 = abcd'', ''I5 = x'', ''I3 = abcd'',
      [], ''[Peer]'', ''PublicKey = k'', ''H1 = 1'', ''Endpoint = 0.0.0.0:51820'',
      ''AllowedIPs = 0.0.0.0/0'', ''PersistentKeepalive = 25'', []]"
    by (simp add: multiline_render_lines cjk_comment_def)
  show ?thesis unfolding l using h by (simp add: cjk_comment_def)
qed

end
